theory Spec2Isabelle
  imports Main "HOL-Library.Word"
begin

section \<open>Go strings, runes and the standard-library functions the parser calls\<close>

text \<open>
  The parser of package \<open>parser\<close> reads its input rune by rune (\<open>for _, r := range s\<close>,
  \<open>utf8.DecodeRuneInString\<close>). A Go string is modelled as the list of its Unicode code
  points, that is, as what \<open>[]rune(s)\<close> yields for a well-formed UTF-8 string; a rune is
  its code point as a natural number. Emptiness tests (\<open>s == ""\<close>, \<open>len(s) > 0\<close>) are the
  same on both views; \<open>len(s) != 3\<close> in \<open>isAlpha3\<close> is followed by a test that all three
  bytes are ASCII letters, so that byte length and rune length agree where it matters.
  \<open>money.Amount\<close> is Go's \<open>int64\<close>: a 64-bit word whose arithmetic wraps.
\<close>

type_synonym rune = nat
type_synonym gostring = "rune list"
type_synonym int64 = "64 word"

definition str :: "string \<Rightarrow> gostring" where
  "str cs = map of_char cs"

text \<open>\<open>unicode.IsSpace\<close>: the Latin-1 spaces and the code points with property White_Space.\<close>

definition unicode_IsSpace :: "rune \<Rightarrow> bool" where
  "unicode_IsSpace r \<longleftrightarrow>
     r = 9 \<or> r = 10 \<or> r = 11 \<or> r = 12 \<or> r = 13 \<or> r = 32 \<or> r = 0x85 \<or> r = 0xA0 \<or>
     r = 0x1680 \<or> (0x2000 \<le> r \<and> r \<le> 0x200A) \<or> r = 0x2028 \<or> r = 0x2029 \<or>
     r = 0x202F \<or> r = 0x205F \<or> r = 0x3000"

text \<open>\<open>strings.TrimSpace\<close>: leading and trailing white space removed.\<close>

definition strings_TrimSpace :: "gostring \<Rightarrow> gostring" where
  "strings_TrimSpace s = rev (dropWhile unicode_IsSpace (rev (dropWhile unicode_IsSpace s)))"

text \<open>
  \<open>strings.ReplaceAll(s, old, new)\<close> where \<open>old\<close> and \<open>new\<close> are one rune each, the only way
  the parser calls it (\<open>nbsp\<close> to \<open>space\<close>).
\<close>

definition strings_ReplaceAll :: "gostring \<Rightarrow> rune \<Rightarrow> rune \<Rightarrow> gostring" where
  "strings_ReplaceAll s old new = map (\<lambda>r. if r = old then new else r) s"

fun strings_HasPrefix :: "gostring \<Rightarrow> gostring \<Rightarrow> bool" where
  "strings_HasPrefix s [] = True"
| "strings_HasPrefix [] (p # ps) = False"
| "strings_HasPrefix (x # xs) (p # ps) = (x = p \<and> strings_HasPrefix xs ps)"

text \<open>\<open>strings.Contains(s, substr)\<close>; \<open>strings.Index(s, substr) == -1\<close> is its negation.\<close>

fun strings_Contains :: "gostring \<Rightarrow> gostring \<Rightarrow> bool" where
  "strings_Contains [] sub = (sub = [])"
| "strings_Contains (x # xs) sub = (strings_HasPrefix (x # xs) sub \<or> strings_Contains xs sub)"

text \<open>
  \<open>strings.Replace(s, old, "", 1)\<close>: the first occurrence of \<open>old\<close> removed. With an empty
  \<open>old\<close> the empty string is replaced by the empty string and \<open>s\<close> is returned as it is.
\<close>

fun strings_Replace1 :: "gostring \<Rightarrow> gostring \<Rightarrow> gostring" where
  "strings_Replace1 [] old = []"
| "strings_Replace1 (x # xs) old =
     (if strings_HasPrefix (x # xs) old then drop (length old) (x # xs)
      else x # strings_Replace1 xs old)"

text \<open>
  \<open>utf8.DecodeRuneInString\<close>: the first rune and its width (counted in runes here);
  \<open>(RuneError, 0)\<close> on the empty string.
\<close>

definition utf8_DecodeRuneInString :: "gostring \<Rightarrow> rune \<times> nat" where
  "utf8_DecodeRuneInString s = (case s of [] \<Rightarrow> (0xFFFD, 0) | r # _ \<Rightarrow> (r, 1))"

text \<open>\<open>unicode.Is(unicode.Sc, r)\<close>: general category Sc (currency symbols).\<close>

definition unicode_Sc :: "rune \<Rightarrow> bool" where
  "unicode_Sc r \<longleftrightarrow>
     r = 0x24 \<or> (0xA2 \<le> r \<and> r \<le> 0xA5) \<or> r = 0x58F \<or> r = 0x60B \<or>
     (0x7FE \<le> r \<and> r \<le> 0x7FF) \<or> (0x9F2 \<le> r \<and> r \<le> 0x9F3) \<or> r = 0x9FB \<or>
     r = 0xAF1 \<or> r = 0xBF9 \<or> r = 0xE3F \<or> r = 0x17DB \<or>
     (0x20A0 \<le> r \<and> r \<le> 0x20C0) \<or> r = 0xA838 \<or> r = 0xFDFC \<or> r = 0xFE69 \<or>
     r = 0xFF04 \<or> (0xFFE0 \<le> r \<and> r \<le> 0xFFE1) \<or> (0xFFE5 \<le> r \<and> r \<le> 0xFFE6) \<or>
     (0x11FDD \<le> r \<and> r \<le> 0x11FE0) \<or> r = 0x1E2FF \<or> r = 0x1ECB0"

text \<open>
  \<open>unicode.ToLower\<close>: up to \<open>MaxASCII\<close> the letters \<open>A\<close> to \<open>Z\<close> move by \<open>'a' - 'A'\<close> and
  every other rune stays; above, the case table of the Unicode standard decides. That
  table is not part of the package: it is the parameter \<open>lowerCase\<close>.
\<close>

definition unicode_ToLower :: "(rune \<Rightarrow> rune) \<Rightarrow> rune \<Rightarrow> rune" where
  "unicode_ToLower lowerCase r =
     (if r \<le> 0x7F then (if 65 \<le> r \<and> r \<le> 90 then r + 32 else r) else lowerCase r)"

definition strings_ToLower :: "(rune \<Rightarrow> rune) \<Rightarrow> gostring \<Rightarrow> gostring" where
  "strings_ToLower lowerCase s = map (unicode_ToLower lowerCase) s"

section \<open>Data model\<close>

text \<open>
  Modelled from the spec: \<open>money.Currency\<close> is declared in package \<open>money\<close>, outside the
  parser's files. The parser reads three of its fields: \<open>Grapheme\<close> (the symbol),
  \<open>Decimal\<close> (the decimal separator, a string) and \<open>Fraction\<close> (an \<open>int\<close>).
\<close>

record Currency =
  Grapheme :: gostring
  Decimal :: gostring
  Fraction :: int

record ParserOptions =
  AllowCurrencySymbol :: bool
  StrictGrouping :: bool
  AcceptSigns :: bool

record AmountParser =
  opt :: ParserOptions

text \<open>
  What the parser takes from outside its own files: the two look-ups of package
  \<open>money\<close> (\<open>nil\<close> is \<open>None\<close>) and the Unicode lower-case table.
\<close>

record Env =
  GetCurrency :: "gostring \<Rightarrow> Currency option"
  GetCurrencyByNumericCode :: "gostring \<Rightarrow> Currency option"
  lowerCase :: "rune \<Rightarrow> rune"

text \<open>
  The sentinel errors of the package; \<open>Errorf e args\<close> is \<open>fmt.Errorf\<close> wrapping the
  sentinel \<open>e\<close> with the formatted operands \<open>args\<close>. \<open>atoiRunes\<close> has an error without a
  sentinel, and \<open>pow10int64\<close> panics.
\<close>

datatype sentinel =
  ErrEmptyInput | ErrSignsNotAllowed | ErrCurrencySymbolNotAllowed | ErrMixedGrouping
| ErrInvalidCurrencySymbol | ErrInvalidISO | ErrInvalidNumericCode | ErrInvalidCurrencyQuery
| ErrTooManyDecimals | ErrBadChar | ErrNoDigits

datatype error =
  Err sentinel
| Errorf sentinel "gostring list"
| NotADigit rune
| PanicFractionDigits

fun errors_Is :: "error \<Rightarrow> sentinel \<Rightarrow> bool" where
  "errors_Is (Err e) t = (e = t)"
| "errors_Is (Errorf e args) t = (e = t)"
| "errors_Is (NotADigit r) t = False"
| "errors_Is PanicFractionDigits t = False"

section \<open>Options\<close>

type_synonym Option = "ParserOptions \<Rightarrow> ParserOptions"

definition WithStrictGrouping :: "bool \<Rightarrow> Option" where
  "WithStrictGrouping val = (\<lambda>p. p\<lparr>StrictGrouping := val\<rparr>)"

definition WithAllowCurrencySymbol :: "bool \<Rightarrow> Option" where
  "WithAllowCurrencySymbol val = (\<lambda>p. p\<lparr>AllowCurrencySymbol := val\<rparr>)"

definition WithAcceptSigns :: "bool \<Rightarrow> Option" where
  "WithAcceptSigns val = (\<lambda>p. p\<lparr>AcceptSigns := val\<rparr>)"

definition DefaultOptions :: ParserOptions where
  "DefaultOptions = \<lparr>AllowCurrencySymbol = False, StrictGrouping = False, AcceptSigns = True\<rparr>"

text \<open>\<open>&ParserOptions{}\<close>: every switch has Go's zero value.\<close>

definition zeroOptions :: ParserOptions where
  "zeroOptions = \<lparr>AllowCurrencySymbol = False, StrictGrouping = False, AcceptSigns = False\<rparr>"

fun applyOptions :: "Option list \<Rightarrow> ParserOptions \<Rightarrow> ParserOptions" where
  "applyOptions [] p = p"
| "applyOptions (o1 # os) p = applyOptions os (o1 p)"

definition NewAmountParser :: "Option list \<Rightarrow> AmountParser" where
  "NewAmountParser opts =
     \<lparr>opt = (if length opts > 0 then applyOptions opts zeroOptions else DefaultOptions)\<rparr>"

section \<open>Helpers of the parser\<close>

definition isAlpha3 :: "gostring \<Rightarrow> bool" where
  "isAlpha3 s \<longleftrightarrow>
     length s = 3 \<and> list_all (\<lambda>ch. \<not> ((97 > ch \<or> ch > 122) \<and> (65 > ch \<or> ch > 90))) s"

definition isNumeric :: "gostring \<Rightarrow> bool" where
  "isNumeric s \<longleftrightarrow> length s \<noteq> 0 \<and> list_all (\<lambda>ch. \<not> (ch < 48 \<or> ch > 57)) s"

definition lookupCurrency :: "Env \<Rightarrow> gostring \<Rightarrow> error + Currency" where
  "lookupCurrency env q =
     (if isAlpha3 q then
        (case GetCurrency env q of Some c \<Rightarrow> Inr c | None \<Rightarrow> Inl (Errorf ErrInvalidISO [q]))
      else if isNumeric q then
        (case GetCurrencyByNumericCode env q of
           Some c \<Rightarrow> Inr c | None \<Rightarrow> Inl (Errorf ErrInvalidNumericCode [q]))
      else Inl (Errorf ErrInvalidCurrencyQuery [q]))"

definition tokens :: "gostring list" where
  "tokens =
    [[46, 1583, 46, 1573], [46, 1583, 46, 1576], [46, 1583, 46, 1578], [46, 1583, 46, 1580],
     [46, 1583, 46, 1593], [46, 1583, 46, 1603], [46, 1583, 46, 1604], [46, 1583, 46, 1605],
     str ''a$'', str ''ar'', str ''b/.'', str ''br'', str ''bs'', str ''bs.'', str ''bs.s'',
     str ''bz$'', str ''c$'', str ''cf'', str ''cfa'', str ''cg'', str ''chf'', str ''d'',
     str ''db'', str ''fc'', str ''fdj'', str ''fg'', str ''fr'', str ''frw'', str ''ft'',
     str ''g'', str ''gs'', str ''hk$'', str ''j$'', str ''k'', str ''km'', str ''kn'',
     str ''kr'', str ''ksh'', str ''kz'', [107, 269], str ''l'', str ''le'', str ''lei'',
     str ''ls'', str ''lt'', str ''mk'', str ''mt'', str ''mvr'', str ''nfk'', str ''nt$'',
     str ''nu.'', str ''oz t'', str ''p'', str ''p.'', str ''q'', str ''r'', str ''r$'',
     str ''rd$'', str ''rm'', str ''rp'', str ''s$'', str ''s/'', str ''sdr'', str ''sh'',
     str ''sk'', str ''sm'', [115, 111, 8217, 109], str ''t'', str ''t$'', str ''tsh'',
     str ''tt$'', str ''uf'', str ''um'', str ''ush'', str ''vt'', str ''z$'', str ''zk'',
     [122, 322], [402], [1076, 1077, 1085], [1076, 1080, 1085, 46], [1083, 1074],
     [1089, 1086, 1084], [1380, 1408, 46], [4314], [20803]]"

definition containsCurrencySymbol :: "Env \<Rightarrow> gostring \<Rightarrow> bool" where
  "containsCurrencySymbol env s \<longleftrightarrow>
     list_ex unicode_Sc s \<or>
     list_ex (\<lambda>t. strings_Contains (strings_ToLower (lowerCase env) s) t) tokens"

fun contains :: "rune list \<Rightarrow> rune \<Rightarrow> bool" where
  "contains [] r = False"
| "contains (c # cs) r = (if c = r then True else contains cs r)"

definition containsSign :: "gostring \<Rightarrow> bool" where
  "containsSign s = contains [0x2D, 0x2B, 0x2212] (fst (utf8_DecodeRuneInString s))"

fun atoiLoop :: "rune list \<Rightarrow> int64 \<Rightarrow> error + int64" where
  "atoiLoop [] n = Inr n"
| "atoiLoop (r # rs) n =
     (if r < 48 \<or> r > 57 then Inl (NotADigit r) else atoiLoop rs (n * 10 + of_nat (r - 48)))"

definition atoiRunes :: "rune list \<Rightarrow> error + int64" where
  "atoiRunes rs = atoiLoop rs 0"

definition pow10int64 :: "int \<Rightarrow> error + int64" where
  "pow10int64 n =
     (if n = 0 then Inr 1 else if n = 1 then Inr 10 else if n = 2 then Inr 100
      else if n = 3 then Inr 1000 else if n = 4 then Inr 10000 else if n = 5 then Inr 100000
      else if n = 6 then Inr 1000000 else if n = 7 then Inr 10000000
      else if n = 8 then Inr 100000000 else if n = 9 then Inr 1000000000
      else Inl PanicFractionDigits)"

section \<open>The parser\<close>

text \<open>
  \<open>AmountParser.parse\<close> is one function in the source. Its body is cut here into its
  four consecutive parts, in the order of the source, and \<open>parse\<close> puts them together
  again:
  \<^item> \<open>stripSymbol\<close>: the block under \<open>if p.opt.AllowCurrencySymbol && len(s) > 0\<close>, which
    returns \<open>ErrInvalidCurrencySymbol\<close> when \<open>strings.Index\<close> is \<open>-1\<close> and otherwise removes
    the first occurrence of the grapheme and trims;
  \<^item> \<open>stripSign\<close>: the block under \<open>if p.opt.AcceptSigns && len(s) > 0\<close>, which returns the
    sign (\<open>1\<close> unless the first rune is \<open>U+2212\<close> or \<open>-\<close>) and the rest of the string;
  \<^item> \<open>scan\<close>: the loop over the runes;
  \<^item> \<open>assemble\<close>: everything after the loop, from the test for \<open>ErrNoDigits\<close> to the
    returned amount. The switch on the length of the fraction pads with \<open>'0'\<close> when the
    fraction is shorter than \<open>fracDigits\<close> (nothing is added when the lengths are equal)
    and returns \<open>ErrTooManyDecimals\<close> when it is longer.
\<close>

definition stripSymbol :: "ParserOptions \<Rightarrow> Currency \<Rightarrow> gostring \<Rightarrow> error + gostring" where
  "stripSymbol p cur s =
     (if AllowCurrencySymbol p \<and> length s > 0 then
        (if \<not> strings_Contains s (Grapheme cur) then Inl (Err ErrInvalidCurrencySymbol)
         else Inr (strings_TrimSpace (strings_Replace1 s (Grapheme cur))))
      else Inr s)"

definition stripSign :: "ParserOptions \<Rightarrow> gostring \<Rightarrow> int64 \<times> gostring" where
  "stripSign p s =
     (if AcceptSigns p \<and> length s > 0 then
        (let (r, size) = utf8_DecodeRuneInString s in
         if r = 0x2212 \<or> r = 0x2D then (- 1, strings_TrimSpace (drop size s))
         else if r = 0x2B then (1, strings_TrimSpace (drop size s))
         else (1, s))
      else (1, s))"

text \<open>
  The loop \<open>for _, r := range s\<close>. Its variables \<open>intDigits\<close>, \<open>fracDigitsRunes\<close>,
  \<open>hasDec\<close> and \<open>lastSeenRune\<close> are the last four arguments (\<open>lastSeenRune\<close> starts at
  \<open>rune(48)\<close>); the second argument is the whole string, which the loop only puts into the
  message of \<open>ErrMixedGrouping\<close>. \<open>Inr\<close> carries the two digit sequences at the end of
  the loop.
\<close>

fun scan :: "ParserOptions \<Rightarrow> gostring \<Rightarrow> rune \<Rightarrow> int \<Rightarrow> gostring \<Rightarrow>
    rune list \<Rightarrow> rune list \<Rightarrow> bool \<Rightarrow> rune \<Rightarrow> error + (rune list \<times> rune list)" where
  "scan p s dec fracDigits [] intDigits fracDigitsRunes hasDec lastSeenRune =
     Inr (intDigits, fracDigitsRunes)"
| "scan p s dec fracDigits (r # rs) intDigits fracDigitsRunes hasDec lastSeenRune =
     (if r \<ge> 48 \<and> r \<le> 57 then
        (if hasDec
         then scan p s dec fracDigits rs intDigits (fracDigitsRunes @ [r]) hasDec lastSeenRune
         else scan p s dec fracDigits rs (intDigits @ [r]) fracDigitsRunes hasDec lastSeenRune)
      else if r = dec \<and> \<not> hasDec \<and> fracDigits > 0 then
        scan p s dec fracDigits rs intDigits fracDigitsRunes True lastSeenRune
      else if r = 32 \<or> r = 44 \<or> r = 46 then
        (if StrictGrouping p then
           (let tmp = lastSeenRune; lastSeenRune = r in
            if \<not> hasDec \<and> (tmp \<noteq> 48 \<and> tmp \<noteq> lastSeenRune)
            then Inl (Errorf ErrMixedGrouping [s, [r]])
            else scan p s dec fracDigits rs intDigits fracDigitsRunes hasDec lastSeenRune)
         else scan p s dec fracDigits rs intDigits fracDigitsRunes hasDec lastSeenRune)
      else Inl (Errorf ErrBadChar [[r]]))"

definition decimalRune :: "Currency \<Rightarrow> rune" where
  "decimalRune cur = (case Decimal cur of [] \<Rightarrow> 46 | d # _ \<Rightarrow> d)"

definition assemble :: "int \<Rightarrow> int64 \<Rightarrow> rune list \<Rightarrow> rune list \<Rightarrow> error + int64" where
  "assemble fracDigits sign intDigits fracDigitsRunes =
     (if length intDigits = 0 \<and> length fracDigitsRunes = 0 then Inl (Err ErrNoDigits)
      else if int (length fracDigitsRunes) > fracDigits then Inl (Err ErrTooManyDecimals)
      else
        (let padded = fracDigitsRunes @
               replicate (nat (fracDigits - int (length fracDigitsRunes))) 48
         in case atoiRunes intDigits of
              Inl e \<Rightarrow> Inl e
            | Inr intVal \<Rightarrow>
                (case atoiRunes padded of
                   Inl e \<Rightarrow> Inl e
                 | Inr fracVal \<Rightarrow>
                     (case pow10int64 fracDigits of
                        Inl e \<Rightarrow> Inl e
                      | Inr base \<Rightarrow> Inr (sign * (intVal * base + fracVal))))))"

definition parse :: "AmountParser \<Rightarrow> gostring \<Rightarrow> Currency \<Rightarrow> error + int64" where
  "parse p s0 cur =
     (let s1 = strings_TrimSpace (strings_ReplaceAll s0 0xA0 32) in
      case stripSymbol (opt p) cur s1 of
        Inl e \<Rightarrow> Inl e
      | Inr s2 \<Rightarrow>
          (let (sign, s) = stripSign (opt p) s2 in
           if s = [] then Inl (Err ErrNoDigits)
           else
             (case scan (opt p) s (decimalRune cur) (Fraction cur) s [] [] False 48 of
                Inl e \<Rightarrow> Inl e
              | Inr (intDigits, fracDigitsRunes) \<Rightarrow>
                  assemble (Fraction cur) sign intDigits fracDigitsRunes)))"

definition Parse :: "Env \<Rightarrow> AmountParser \<Rightarrow> gostring \<Rightarrow> gostring \<Rightarrow> error + int64" where
  "Parse env p input currency =
     (let s = strings_TrimSpace input in
      if s = [] then Inl (Err ErrEmptyInput)
      else if currency = [] then Inl (Err ErrInvalidISO)
      else
        (case lookupCurrency env (strings_TrimSpace currency) of
           Inl e \<Rightarrow> Inl e
         | Inr c \<Rightarrow>
             if \<not> AcceptSigns (opt p) \<and> containsSign s
             then Inl (Errorf ErrSignsNotAllowed [s])
             else if \<not> AllowCurrencySymbol (opt p) \<and> containsCurrencySymbol env s
             then Inl (Errorf ErrCurrencySymbolNotAllowed [s])
             else parse p s c))"

text \<open>
  \<open>prepare\<close> is the part of \<open>AmountParser.parse\<close> before the loop: white space, the
  symbol and the sign, in this order; it returns the sign and the string the loop will
  read. \<open>reachesLoop env p input currency c sign s\<close> says that \<open>Parse\<close> arrives at the loop
  with sign \<open>sign\<close> and string \<open>s\<close>: the input is not blank, the query is not empty and
  resolves to \<open>c\<close>, the sign gate and the symbol gate let the input pass, and \<open>prepare\<close>
  returns \<open>(sign, s)\<close> with \<open>s\<close> not empty. It holds for signed inputs and for parsers
  that allow the symbol as well.
\<close>

definition prepare :: "AmountParser \<Rightarrow> gostring \<Rightarrow> Currency \<Rightarrow> error + (int64 \<times> gostring)" where
  "prepare p s0 cur =
     (case stripSymbol (opt p) cur (strings_TrimSpace (strings_ReplaceAll s0 0xA0 32)) of
        Inl e \<Rightarrow> Inl e
      | Inr s2 \<Rightarrow> Inr (stripSign (opt p) s2))"

definition reachesLoop ::
    "Env \<Rightarrow> AmountParser \<Rightarrow> gostring \<Rightarrow> gostring \<Rightarrow> Currency \<Rightarrow> int64 \<Rightarrow> gostring \<Rightarrow> bool" where
  "reachesLoop env p input currency c sign s \<longleftrightarrow>
     strings_TrimSpace input \<noteq> [] \<and> currency \<noteq> []
     \<and> lookupCurrency env (strings_TrimSpace currency) = Inr c
     \<and> (AcceptSigns (opt p) \<or> \<not> containsSign (strings_TrimSpace input))
     \<and> (AllowCurrencySymbol (opt p) \<or> \<not> containsCurrencySymbol env (strings_TrimSpace input))
     \<and> prepare p (strings_TrimSpace input) c = Inr (sign, s) \<and> s \<noteq> []"

section \<open>The currencies of the scenarios\<close>

text \<open>
  Modelled from the spec: the currency table is data of package \<open>money\<close> and is not among
  the parser's files. The scenarios of the spec name four currencies: EUR and USD with
  two fraction digits and \<open>.\<close> as decimal separator, JPY with none, CLF with four and
  \<open>,\<close> as decimal separator (\<open>2,28\<close> is \<open>22800\<close>). The symbols of EUR and USD are those of
  the scenarios; those of JPY and CLF play no role below. \<open>specEnv\<close> is a table with these
  four entries under their alpha-3 codes and no numeric code, for any lower-case table
  \<open>lc\<close>.
\<close>

definition EUR :: Currency where
  "EUR = \<lparr>Grapheme = [0x20AC], Decimal = str ''.'', Fraction = 2\<rparr>"

definition USD :: Currency where
  "USD = \<lparr>Grapheme = str ''$'', Decimal = str ''.'', Fraction = 2\<rparr>"

definition JPY :: Currency where
  "JPY = \<lparr>Grapheme = [0xA5], Decimal = str ''.'', Fraction = 0\<rparr>"

definition CLF :: Currency where
  "CLF = \<lparr>Grapheme = str ''UF'', Decimal = str '','', Fraction = 4\<rparr>"

definition specEnv :: "(rune \<Rightarrow> rune) \<Rightarrow> Env" where
  "specEnv lc =
     \<lparr>GetCurrency = map_of
        [(str ''EUR'', EUR), (str ''USD'', USD), (str ''JPY'', JPY), (str ''CLF'', CLF)],
      GetCurrencyByNumericCode = Map.empty,
      lowerCase = lc\<rparr>"

section \<open>Classes of runes and the exact value of a digit string\<close>

text \<open>
  The loop of \<open>parse\<close> accepts the ASCII digits and treats space, comma and period as
  grouping separators. \<open>decimalValue\<close> is the number a digit string denotes, without any
  bound.
\<close>

definition isDigit :: "rune \<Rightarrow> bool" where
  "isDigit r \<longleftrightarrow> 48 \<le> r \<and> r \<le> 57"

definition isGrouping :: "rune \<Rightarrow> bool" where
  "isGrouping r \<longleftrightarrow> r = 32 \<or> r = 44 \<or> r = 46"

definition plainRune :: "rune \<Rightarrow> bool" where
  "plainRune r \<longleftrightarrow> isDigit r \<or> isGrouping r"

definition decimalValue :: "rune list \<Rightarrow> nat" where
  "decimalValue ds = foldl (\<lambda>n r. n * 10 + (r - 48)) 0 ds"

section \<open>Evaluation on concrete inputs\<close>

lemma replicate_numeral: "replicate (numeral k) x = x # replicate (pred_numeral k) x"
  by (simp add: numeral_eq_Suc)

lemmas eval_defs =
  replicate_numeral
  Parse_def parse_def specEnv_def EUR_def USD_def JPY_def CLF_def str_def
  NewAmountParser_def DefaultOptions_def zeroOptions_def WithStrictGrouping_def
  WithAllowCurrencySymbol_def WithAcceptSigns_def
  strings_TrimSpace_def unicode_IsSpace_def lookupCurrency_def isAlpha3_def isNumeric_def
  containsSign_def utf8_DecodeRuneInString_def containsCurrencySymbol_def unicode_Sc_def
  tokens_def strings_ToLower_def unicode_ToLower_def strings_ReplaceAll_def
  stripSymbol_def stripSign_def decimalRune_def assemble_def atoiRunes_def pow10int64_def

section \<open>Properties of the string functions\<close>

lemma HasPrefix_set: "strings_HasPrefix s t \<Longrightarrow> set t \<subseteq> set s"
  by (induction s t rule: strings_HasPrefix.induct) auto

lemma Contains_set: "strings_Contains s t \<Longrightarrow> set t \<subseteq> set s"
  by (induction s) (auto dest!: HasPrefix_set)

lemma Contains_single: "strings_Contains s [x] \<longleftrightarrow> x \<in> set s"
  by (induction s) auto

lemma TrimSpace_id:
  assumes "s \<noteq> []" "\<not> unicode_IsSpace (hd s)" "\<not> unicode_IsSpace (last s)"
  shows "strings_TrimSpace s = s"
proof -
  have a: "dropWhile unicode_IsSpace s = s"
    using assms by (cases s) auto
  have b: "dropWhile unicode_IsSpace (rev s) = rev s"
    using assms by (cases "rev s") (auto simp: last_rev[symmetric] hd_rev)
  show ?thesis by (simp add: strings_TrimSpace_def a b)
qed

lemma TrimSpace_ends:
  assumes "strings_TrimSpace s \<noteq> []"
  shows "\<not> unicode_IsSpace (hd (strings_TrimSpace s))" "\<not> unicode_IsSpace (last (strings_TrimSpace s))"
proof -
  let ?u = "dropWhile unicode_IsSpace s"
  let ?v = "dropWhile unicode_IsSpace (rev ?u)"
  have v: "?v \<noteq> []" using assms by (simp add: strings_TrimSpace_def)
  then have hv: "\<not> unicode_IsSpace (hd ?v)" by (rule hd_dropWhile)
  then show "\<not> unicode_IsSpace (last (strings_TrimSpace s))"
    using v by (simp add: strings_TrimSpace_def last_rev)
  have u: "?u \<noteq> []"
  proof
    assume "?u = []"
    then have "?v = []" by (metis dropWhile.simps(1) rev.simps(1))
    with v show False ..
  qed
  then have hu: "\<not> unicode_IsSpace (hd ?u)" by (rule hd_dropWhile)
  have "\<exists>ws. rev ?u = ws @ ?v" by (metis takeWhile_dropWhile_id)
  then obtain ws where "rev ?u = ws @ ?v" ..
  then have "?u = rev ?v @ rev ws" by (metis rev_append rev_rev_ident)
  then have "hd ?u = hd (rev ?v)" using v by (metis hd_append2 rev_is_Nil_conv)
  with hu show "\<not> unicode_IsSpace (hd (strings_TrimSpace s))"
    by (simp add: strings_TrimSpace_def)
qed

lemma TrimSpace_idem: "strings_TrimSpace (strings_TrimSpace s) = strings_TrimSpace s"
proof (cases "strings_TrimSpace s = []")
  case True
  have "strings_TrimSpace [] = []" by (simp add: strings_TrimSpace_def)
  with True show ?thesis by simp
next
  case False
  then show ?thesis using TrimSpace_ends[OF False] by (intro TrimSpace_id) auto
qed

lemma dropWhile_mem: "x \<in> set s \<Longrightarrow> \<not> P x \<Longrightarrow> x \<in> set (dropWhile P s)"
  by (induction s) auto

lemma TrimSpace_mem:
  assumes "x \<in> set s" and "\<not> unicode_IsSpace x"
  shows "x \<in> set (strings_TrimSpace s)"
proof -
  have "x \<in> set (rev (dropWhile unicode_IsSpace s))"
    using assms by (simp add: dropWhile_mem)
  then have "x \<in> set (dropWhile unicode_IsSpace (rev (dropWhile unicode_IsSpace s)))"
    using assms(2) by (rule dropWhile_mem)
  then show ?thesis by (simp add: strings_TrimSpace_def)
qed

lemma plain_IsSpace: "plainRune r \<Longrightarrow> unicode_IsSpace r \<longleftrightarrow> r = 32"
  by (auto simp: plainRune_def isDigit_def isGrouping_def unicode_IsSpace_def)

lemma TrimSpace_plain:
  assumes "s \<noteq> []" and "list_all plainRune s" and "hd s \<noteq> 32" and "last s \<noteq> 32"
  shows "strings_TrimSpace s = s"
proof -
  have "plainRune (hd s)" "plainRune (last s)"
    using assms(1,2) by (auto simp: list_all_iff)
  then have "\<not> unicode_IsSpace (hd s)" "\<not> unicode_IsSpace (last s)"
    using assms(3,4) by (simp_all add: plain_IsSpace)
  with assms(1) show ?thesis by (intro TrimSpace_id)
qed


lemma dropWhile_all: "(\<forall>x \<in> set (dropWhile P s). P x) \<longleftrightarrow> (\<forall>x \<in> set s. P x)"
proof
  assume a: "\<forall>x \<in> set (dropWhile P s). P x"
  have "dropWhile P s = []"
  proof (rule ccontr)
    assume n: "dropWhile P s \<noteq> []"
    then have "\<not> P (hd (dropWhile P s))" by (rule hd_dropWhile)
    moreover have "hd (dropWhile P s) \<in> set (dropWhile P s)" using n by simp
    ultimately show False using a by blast
  qed
  then show "\<forall>x \<in> set s. P x" by (simp add: dropWhile_eq_Nil_conv)
next
  assume "\<forall>x \<in> set s. P x"
  then show "\<forall>x \<in> set (dropWhile P s). P x" by (auto dest: set_dropWhileD)
qed

lemma TrimSpace_Nil_iff: "strings_TrimSpace s = [] \<longleftrightarrow> list_all unicode_IsSpace s"
  by (simp add: strings_TrimSpace_def dropWhile_eq_Nil_conv dropWhile_all list_all_iff)

lemma TrimSpace_spaces_prefix:
  "list_all unicode_IsSpace ws \<Longrightarrow> strings_TrimSpace (ws @ s) = strings_TrimSpace s"
  by (simp add: strings_TrimSpace_def dropWhile_append list_all_iff)

lemma TrimSpace_Cons_nonspace:
  assumes "\<not> unicode_IsSpace x" and "strings_TrimSpace s \<noteq> []"
  shows "strings_TrimSpace (x # s) = x # takeWhile unicode_IsSpace s @ strings_TrimSpace s"
proof -
  let ?P = unicode_IsSpace
  let ?d = "dropWhile ?P s"
  have ne: "\<not> list_all ?P ?d"
    using assms(2) TrimSpace_Nil_iff [of s]
    by (auto simp: strings_TrimSpace_def dropWhile_eq_Nil_conv list_all_iff)
  then have nd: "\<exists>y \<in> set (rev ?d). \<not> ?P y" by (auto simp: list_all_iff)
  have s: "s = takeWhile ?P s @ ?d" by simp
  have "rev s = rev ?d @ rev (takeWhile ?P s)"
    by (subst s) (simp only: rev_append)
  moreover obtain y where y: "y \<in> set (rev ?d)" "\<not> ?P y" using nd by blast
  ultimately have "dropWhile ?P (rev s) = dropWhile ?P (rev ?d) @ rev (takeWhile ?P s)"
    using dropWhile_append1 [of y "rev ?d" ?P "rev (takeWhile ?P s)"] by simp
  moreover have "y \<in> set (rev s)"
    using y(1) by (auto dest: set_dropWhileD)
  ultimately have "dropWhile ?P (rev s @ [x])
        = dropWhile ?P (rev ?d) @ rev (takeWhile ?P s) @ [x]"
    using y(2) by (simp add: dropWhile_append1)
  then show ?thesis
    using assms(1) by (simp add: strings_TrimSpace_def)
qed

lemma TrimSpace_subset: "set (strings_TrimSpace s) \<subseteq> set s"
proof
  fix x
  assume "x \<in> set (strings_TrimSpace s)"
  then have "x \<in> set (dropWhile unicode_IsSpace (rev (dropWhile unicode_IsSpace s)))"
    by (simp add: strings_TrimSpace_def)
  then have "x \<in> set (rev (dropWhile unicode_IsSpace s))" by (rule set_dropWhileD)
  then have "x \<in> set (dropWhile unicode_IsSpace s)" by simp
  then show "x \<in> set s" by (rule set_dropWhileD)
qed

lemma Contains_prefix: "strings_Contains x g \<Longrightarrow> strings_Contains (pre @ x) g"
  by (induction pre) auto

lemma Contains_prefix_iff:
  "t \<noteq> [] \<Longrightarrow> hd t \<notin> set pre \<Longrightarrow> strings_Contains (pre @ x) t = strings_Contains x t"
proof (induction pre)
  case Nil
  then show ?case by simp
next
  case (Cons a pre)
  then obtain h t' where t: "t = h # t'" by (cases t) auto
  with Cons.prems have "\<not> strings_HasPrefix ((a # pre) @ x) t" by auto
  with Cons show ?case by simp
qed

lemma Replace1_prefix:
  "g \<noteq> [] \<Longrightarrow> hd g \<notin> set pre \<Longrightarrow> strings_Replace1 (pre @ x) g = pre @ strings_Replace1 x g"
proof (induction pre)
  case Nil
  then show ?case by simp
next
  case (Cons a pre)
  then obtain h g' where g: "g = h # g'" by (cases g) auto
  with Cons.prems have "\<not> strings_HasPrefix ((a # pre) @ x) g" by auto
  with Cons show ?case by simp
qed

lemma Replace1_Nil: "strings_Replace1 x [] = x"
  by (cases x) simp_all

lemma Replace1_subset: "set (strings_Replace1 x g) \<subseteq> set x"
proof (induction x)
  case Nil
  then show ?case by simp
next
  case (Cons a x)
  have "set (drop (length g) (a # x)) \<subseteq> set (a # x)" by (rule set_drop_subset)
  with Cons show ?case by auto
qed

lemma ReplaceAll_space: "unicode_IsSpace (if r = 0xA0 then 32 else r) \<longleftrightarrow> unicode_IsSpace r"
  by (auto simp: unicode_IsSpace_def)

lemma ReplaceAll_subset: "set (strings_ReplaceAll s 0xA0 32) \<subseteq> insert 32 (set s)"
  by (auto simp: strings_ReplaceAll_def)

lemma TrimSpace_ReplaceAll_id:
  assumes "s \<noteq> []" and "\<not> unicode_IsSpace (hd s)" and "\<not> unicode_IsSpace (last s)"
  shows "strings_TrimSpace (strings_ReplaceAll s 0xA0 32) = strings_ReplaceAll s 0xA0 32"
proof -
  let ?r = "strings_ReplaceAll s 0xA0 32"
  have ne: "?r \<noteq> []" using assms(1) by (simp add: strings_ReplaceAll_def)
  have "hd ?r = (if hd s = 0xA0 then 32 else hd s)"
    using assms(1) by (simp add: strings_ReplaceAll_def hd_map)
  then have h: "\<not> unicode_IsSpace (hd ?r)"
    using assms(2) ReplaceAll_space [of "hd s"] by (simp only:) simp
  have "last ?r = (if last s = 0xA0 then 32 else last s)"
    using assms(1) by (simp add: strings_ReplaceAll_def last_map)
  then have l: "\<not> unicode_IsSpace (last ?r)"
    using assms(3) ReplaceAll_space [of "last s"] by (simp only:) simp
  from ne h l show ?thesis by (rule TrimSpace_id)
qed

lemma TrimSpace_sign_prefix:
  assumes "\<not> unicode_IsSpace x" and "list_all unicode_IsSpace sps" and "strings_TrimSpace y \<noteq> []"
  shows "strings_TrimSpace (x # sps @ y)
         = x # sps @ takeWhile unicode_IsSpace y @ strings_TrimSpace y"
proof -
  have t: "strings_TrimSpace (sps @ y) = strings_TrimSpace y"
    using assms(2) by (rule TrimSpace_spaces_prefix)
  have "takeWhile unicode_IsSpace (sps @ y) = sps @ takeWhile unicode_IsSpace y"
    using assms(2) by (simp add: takeWhile_append2 list_all_iff)
  then show ?thesis
    using TrimSpace_Cons_nonspace [of x "sps @ y"] assms(1,3) t by simp
qed

section \<open>Properties of the gates of \<open>Parse\<close>\<close>

lemma tokens_not_plain: "list_all (\<lambda>t. list_ex (\<lambda>r. \<not> plainRune r) t) tokens"
  by (simp add: tokens_def str_def plainRune_def isDigit_def isGrouping_def)

lemma ToLower_plain: "plainRune r \<Longrightarrow> unicode_ToLower lc r = r"
  by (auto simp: plainRune_def isDigit_def isGrouping_def unicode_ToLower_def)

lemma Sc_plain: "plainRune r \<Longrightarrow> \<not> unicode_Sc r"
  by (auto simp: plainRune_def isDigit_def isGrouping_def unicode_Sc_def)

lemma plain_no_symbol:
  assumes "list_all plainRune s"
  shows "\<not> containsCurrencySymbol env s"
proof -
  have low: "strings_ToLower (lowerCase env) s = s"
    using assms by (simp add: strings_ToLower_def list_all_iff ToLower_plain map_idI)
  have sc: "\<not> list_ex unicode_Sc s"
    using assms by (auto simp: list_all_iff list_ex_iff Sc_plain)
  have "\<not> strings_Contains s t" if "t \<in> set tokens" for t
  proof
    assume "strings_Contains s t"
    then have "set t \<subseteq> set s" by (rule Contains_set)
    moreover from that tokens_not_plain obtain r where "r \<in> set t" "\<not> plainRune r"
      by (auto simp: list_all_iff list_ex_iff)
    ultimately show False using assms by (auto simp: list_all_iff)
  qed
  with low sc show ?thesis
    by (auto simp: containsCurrencySymbol_def list_ex_iff)
qed

lemma sign_not_plain:
  "contains [0x2D, 0x2B, 0x2212] r \<Longrightarrow> \<not> plainRune r"
  by (auto simp: plainRune_def isDigit_def isGrouping_def split: if_splits)

lemma single_letter_token:
  "r \<in> set (str ''dgklpqrtDGKLPQRT'') \<Longrightarrow> [unicode_ToLower lc r] \<in> set tokens"
  by (auto simp: str_def unicode_ToLower_def tokens_def)

lemma lookupCurrency_error: "lookupCurrency env q = Inl e \<Longrightarrow> \<exists>k args. e = Errorf k args"
  by (auto simp: lookupCurrency_def split: if_splits option.splits)

lemma IsSpace_not_Sc: "unicode_IsSpace r \<Longrightarrow> \<not> unicode_Sc r"
  by (auto simp: unicode_IsSpace_def unicode_Sc_def)

lemma token_heads:
  "list_all (\<lambda>t. t \<noteq> [] \<and> hd t \<noteq> 0x2D \<and> \<not> unicode_IsSpace (hd t)) tokens"
  by (simp add: tokens_def str_def unicode_IsSpace_def)

lemma symbol_gate_prefix:
  assumes "\<not> containsCurrencySymbol env x"
    and "list_all (\<lambda>r. r = 0x2D \<or> unicode_IsSpace r) pre"
    and "\<forall>r. unicode_IsSpace r \<longrightarrow> lowerCase env r = r"
  shows "\<not> containsCurrencySymbol env (pre @ x)"
proof -
  have low: "unicode_ToLower (lowerCase env) r = r" if "r \<in> set pre" for r
  proof -
    from that assms(2) have "r = 0x2D \<or> unicode_IsSpace r" by (auto simp: list_all_iff)
    then show ?thesis
    proof
      assume "r = 0x2D"
      then show ?thesis by (simp add: unicode_ToLower_def)
    next
      assume sp: "unicode_IsSpace r"
      then have "\<not> (65 \<le> r \<and> r \<le> 90)" by (auto simp: unicode_IsSpace_def)
      with sp assms(3) show ?thesis by (simp add: unicode_ToLower_def)
    qed
  qed
  then have lp: "strings_ToLower (lowerCase env) (pre @ x) = pre @ strings_ToLower (lowerCase env) x"
    by (simp add: strings_ToLower_def map_idI)
  have m: "\<not> unicode_Sc 0x2D" by (simp add: unicode_Sc_def)
  have "\<not> unicode_Sc r" if "r \<in> set pre" for r
  proof -
    from that assms(2) have "r = 0x2D \<or> unicode_IsSpace r" by (auto simp: list_all_iff)
    then show ?thesis using m IsSpace_not_Sc by blast
  qed
  then have sc: "\<not> list_ex unicode_Sc pre"
    by (auto simp: list_ex_iff)
  have tk: "strings_Contains (pre @ strings_ToLower (lowerCase env) x) t
            = strings_Contains (strings_ToLower (lowerCase env) x) t" if "t \<in> set tokens" for t
  proof -
    from that token_heads have t: "t \<noteq> []" "hd t \<noteq> 0x2D" "\<not> unicode_IsSpace (hd t)"
      by (auto simp: list_all_iff)
    then have "hd t \<notin> set pre" using assms(2) by (auto simp: list_all_iff)
    with t(1) show ?thesis by (rule Contains_prefix_iff)
  qed
  show ?thesis
    using assms(1) sc tk by (auto simp: containsCurrencySymbol_def lp list_ex_iff)
qed

section \<open>Digit strings and the assembly of the amount\<close>

lemma atoiLoop_digits:
  "list_all isDigit ds \<Longrightarrow>
   atoiLoop ds (of_nat m) = Inr (of_nat (foldl (\<lambda>n r. n * 10 + (r - 48)) m ds))"
proof (induction ds arbitrary: m)
  case Nil
  then show ?case by simp
next
  case (Cons r ds)
  have step: "(of_nat m :: int64) * 10 + of_nat (r - 48) = of_nat (m * 10 + (r - 48))"
    by simp
  from Cons.prems have r: "isDigit r" and ds: "list_all isDigit ds"
    by simp_all
  from r have "\<not> (r < 48 \<or> r > 57)"
    by (auto simp: isDigit_def)
  with ds show ?case
    using Cons.IH [of "m * 10 + (r - 48)"] by (simp only: atoiLoop.simps step if_False foldl_Cons)
qed

lemma atoiRunes_digits:
  "list_all isDigit ds \<Longrightarrow> atoiRunes ds = Inr (of_nat (decimalValue ds))"
  using atoiLoop_digits[of ds 0] by (simp add: atoiRunes_def decimalValue_def)

lemma foldl_zeros: "foldl (\<lambda>n r. n * 10 + (r - 48)) m (replicate k (48::nat)) = m * 10 ^ k"
  by (induction k arbitrary: m) simp_all

lemma decimalValue_pad: "decimalValue (f @ replicate k 48) = decimalValue f * 10 ^ k"
  by (simp add: decimalValue_def foldl_zeros)

lemma pow10int64_range: "0 \<le> n \<Longrightarrow> n \<le> 9 \<Longrightarrow> pow10int64 n = Inr (10 ^ nat n)"
proof -
  assume "0 \<le> n" "n \<le> 9"
  then have "n \<in> {0, 1, 2, 3, 4, 5, 6, 7, 8, 9}"
    by (simp only: insert_iff empty_iff) arith
  then show ?thesis by (auto simp: pow10int64_def)
qed

lemma assemble_digits:
  assumes "list_all isDigit i" and "list_all isDigit f" and "i \<noteq> [] \<or> f \<noteq> []"
    and "int (length f) \<le> fd" and "fd \<le> 9"
  shows "assemble fd sg i f =
         Inr (sg * (of_nat (decimalValue i) * 10 ^ nat fd
                    + of_nat (decimalValue f * 10 ^ (nat fd - length f))))"
proof -
  have pad: "list_all isDigit (f @ replicate (nat (fd - int (length f))) 48)"
    using assms(2) by (auto simp: list_all_iff isDigit_def)
  have k: "nat (fd - int (length f)) = nat fd - length f" by simp
  have "0 \<le> fd" using assms(4) by simp
  then have pw: "pow10int64 fd = Inr (10 ^ nat fd)" using assms(5) by (rule pow10int64_range)
  have a1: "atoiRunes i = Inr (of_nat (decimalValue i))"
    using assms(1) by (rule atoiRunes_digits)
  have a2: "atoiRunes (f @ replicate (nat (fd - int (length f))) 48)
            = Inr (of_nat (decimalValue f * 10 ^ (nat fd - length f)))"
    using atoiRunes_digits [OF pad] by (simp only: decimalValue_pad k)
  have c1: "\<not> (length i = 0 \<and> length f = 0)" using assms(3) by simp
  have c2: "\<not> int (length f) > fd" using assms(4) by simp
  show ?thesis
    unfolding assemble_def Let_def a1 a2 pw by (simp only: c1 c2 if_False sum.case)
qed

lemma digits_plain: "list_all isDigit ds \<Longrightarrow> list_all plainRune ds"
  by (auto simp: list_all_iff plainRune_def)

lemma filter_digits: "list_all isDigit ds \<Longrightarrow> filter isDigit ds = ds"
  by (induction ds) auto

lemma digits_no_grouping: "list_all isDigit ds \<Longrightarrow> g \<in> set ds \<Longrightarrow> \<not> isGrouping g"
  by (auto simp: list_all_iff isDigit_def isGrouping_def)

lemma atoiLoop_error: "atoiLoop rs n = Inl e \<Longrightarrow> \<exists>r. e = NotADigit r"
  by (induction rs arbitrary: n) (auto split: if_splits)

lemma pow10int64_error: "pow10int64 n = Inl e \<Longrightarrow> e = PanicFractionDigits"
  by (auto simp: pow10int64_def split: if_splits)

lemma assemble_TooManyDecimals:
  "assemble fd sg i f = Inl (Err ErrTooManyDecimals)
   \<longleftrightarrow> \<not> (i = [] \<and> f = []) \<and> int (length f) > fd"
proof (cases "(i = [] \<and> f = []) \<or> int (length f) > fd")
  case True
  then show ?thesis by (auto simp: assemble_def)
next
  case False
  have "assemble fd sg i f \<noteq> Inl (Err ErrTooManyDecimals)"
    using False
    by (auto simp: assemble_def atoiRunes_def Let_def split: sum.splits
        dest: atoiLoop_error pow10int64_error)
  with False show ?thesis by auto
qed



lemma assemble_neg: "assemble fd 1 i f = Inr v \<Longrightarrow> assemble fd (- 1) i f = Inr (- v)"
  by (auto simp: assemble_def Let_def split: if_splits sum.splits)

section \<open>Properties of the loop over the runes\<close>

lemma scan_digits:
  "list_all isDigit ds \<Longrightarrow>
   scan p s dec fd (ds @ rest) i f False l = scan p s dec fd rest (i @ ds) f False l"
  by (induction ds arbitrary: i) (auto simp: isDigit_def)

lemma scan_after_decimal:
  "list_all plainRune t \<Longrightarrow> scan p s dec fd t i f True l = Inr (i, f @ filter isDigit t)"
  by (induction t arbitrary: f l) (auto simp: plainRune_def isDigit_def isGrouping_def)

lemma scan_before_decimal:
  assumes "list_all plainRune u"
    and "fd > 0 \<longrightarrow> dec \<notin> set u"
    and "StrictGrouping p \<longrightarrow> (\<forall>g \<in> set u. isGrouping g \<longrightarrow> g = c) \<and> (l = 48 \<or> l = c)"
  shows "scan p s dec fd (u @ rest) i f False l =
         scan p s dec fd rest (i @ filter isDigit u) f False
           (if StrictGrouping p \<and> list_ex isGrouping u then c else l)"
  using assms
proof (induction u arbitrary: i l)
  case Nil
  then show ?case by simp
next
  case (Cons r u)
  have p1: "list_all plainRune u" using Cons.prems(1) by simp
  have p2: "fd > 0 \<longrightarrow> dec \<notin> set u" using Cons.prems(2) by simp
  have p3: "StrictGrouping p \<longrightarrow> (\<forall>g \<in> set u. isGrouping g \<longrightarrow> g = c)"
    using Cons.prems(3) by simp
  show ?case
  proof (cases "isDigit r")
    case True
    then have ng: "\<not> isGrouping r" by (auto simp: isDigit_def isGrouping_def)
    have q3: "StrictGrouping p \<longrightarrow> (\<forall>g \<in> set u. isGrouping g \<longrightarrow> g = c) \<and> (l = 48 \<or> l = c)"
      using Cons.prems(3) by simp
    have "scan p s dec fd ((r # u) @ rest) i f False l
          = scan p s dec fd (u @ rest) (i @ [r]) f False l"
      using True by (simp add: isDigit_def)
    also have "\<dots> = scan p s dec fd rest ((i @ [r]) @ filter isDigit u) f False
          (if StrictGrouping p \<and> list_ex isGrouping u then c else l)"
      by (rule Cons.IH [OF p1 p2 q3])
    finally show ?thesis using True ng by simp
  next
    case False
    with Cons.prems(1) have g: "isGrouping r" by (simp add: plainRune_def)
    from Cons.prems(2) have nd: "\<not> (r = dec \<and> fd > 0)" by auto
    have step: "scan p s dec fd ((r # u) @ rest) i f False l =
        (if StrictGrouping p then
           (if l \<noteq> 48 \<and> l \<noteq> r then Inl (Errorf ErrMixedGrouping [s, [r]])
            else scan p s dec fd (u @ rest) i f False r)
         else scan p s dec fd (u @ rest) i f False l)"
      using False g nd by (auto simp: isDigit_def isGrouping_def)
    show ?thesis
    proof (cases "StrictGrouping p")
      case True
      with Cons.prems(3) g have rc: "r = c" and lc: "l = 48 \<or> l = c" by simp_all
      have q3: "StrictGrouping p \<longrightarrow> (\<forall>g \<in> set u. isGrouping g \<longrightarrow> g = c) \<and> (r = 48 \<or> r = c)"
        using p3 rc by simp
      have "scan p s dec fd ((r # u) @ rest) i f False l
            = scan p s dec fd (u @ rest) i f False r"
        using step True rc lc by auto
      also have "\<dots> = scan p s dec fd rest (i @ filter isDigit u) f False
            (if StrictGrouping p \<and> list_ex isGrouping u then c else r)"
        by (rule Cons.IH [OF p1 p2 q3])
      finally show ?thesis using True g rc False by simp
    next
      case ns: False
      have q3: "StrictGrouping p \<longrightarrow> (\<forall>g \<in> set u. isGrouping g \<longrightarrow> g = c) \<and> (l = 48 \<or> l = c)"
        using ns by simp
      have "scan p s dec fd ((r # u) @ rest) i f False l
            = scan p s dec fd (u @ rest) i f False l"
        using step ns by simp
      also have "\<dots> = scan p s dec fd rest (i @ filter isDigit u) f False
            (if StrictGrouping p \<and> list_ex isGrouping u then c else l)"
        by (rule Cons.IH [OF p1 p2 q3])
      finally show ?thesis using ns False by simp
    qed
  qed
qed


lemma scan_with_decimal:
  assumes "list_all plainRune u" and "list_all plainRune t"
    and "fd > 0" and "isGrouping dec" and "dec \<notin> set u"
    and "StrictGrouping p \<longrightarrow> (\<forall>g \<in> set u. isGrouping g \<longrightarrow> g = cg)"
  shows "scan p s dec fd (u @ dec # t) [] [] False 48
         = Inr (filter isDigit u, filter isDigit t)"
proof -
  let ?l = "if StrictGrouping p \<and> list_ex isGrouping u then cg else 48"
  have "scan p s dec fd (u @ dec # t) [] [] False 48
        = scan p s dec fd (dec # t) ([] @ filter isDigit u) [] False ?l"
    using assms(1,5,6) by (intro scan_before_decimal) auto
  also have "\<dots> = scan p s dec fd t (filter isDigit u) [] True ?l"
    using assms(3,4) by (auto simp: isGrouping_def)
  also have "\<dots> = Inr (filter isDigit u, [] @ filter isDigit t)"
    using assms(2) by (rule scan_after_decimal)
  finally show ?thesis by simp
qed

lemma scan_without_decimal:
  assumes "list_all plainRune u"
    and "fd > 0 \<longrightarrow> dec \<notin> set u"
    and "StrictGrouping p \<longrightarrow> (\<forall>g \<in> set u. isGrouping g \<longrightarrow> g = cg)"
  shows "scan p s dec fd u [] [] False 48 = Inr (filter isDigit u, [])"
proof -
  have "scan p s dec fd (u @ []) [] [] False 48
        = scan p s dec fd [] ([] @ filter isDigit u) [] False
            (if StrictGrouping p \<and> list_ex isGrouping u then cg else 48)"
    using assms by (intro scan_before_decimal) auto
  then show ?thesis by simp
qed

lemma scan_no_fraction:
  "fd \<le> 0 \<Longrightarrow> scan p s dec fd rs i [] False l = Inr (i', f') \<Longrightarrow> f' = []"
  by (induction rs arbitrary: i l) (auto split: if_splits simp: Let_def)

lemma scan_error: "scan p s dec fd rs i f h l = Inl e \<Longrightarrow> \<exists>k args. e = Errorf k args"
  by (induction rs arbitrary: i f h l) (auto split: if_splits simp: Let_def)


section \<open>\<open>parse\<close> and \<open>Parse\<close> on inputs of digits and separators\<close>

lemma Parse_plain:
  assumes "strings_TrimSpace input = s" and "s \<noteq> []" and "list_all plainRune s"
    and "currency \<noteq> []" and "lookupCurrency env (strings_TrimSpace currency) = Inr c"
    and "\<not> AllowCurrencySymbol (opt p)"
  shows "Parse env p input currency =
         (case scan (opt p) s (decimalRune c) (Fraction c) s [] [] False 48 of
            Inl e \<Rightarrow> Inl e
          | Inr (intDigits, fracDigitsRunes) \<Rightarrow>
              assemble (Fraction c) 1 intDigits fracDigitsRunes)"
proof -
  obtain r rs where s: "s = r # rs" using assms(2) by (cases s) auto
  with assms(3) have pr: "plainRune r" by simp
  then have nsign: "\<not> containsSign s"
    using sign_not_plain [of r] by (auto simp: containsSign_def utf8_DecodeRuneInString_def s)
  have nsym: "\<not> containsCurrencySymbol env s"
    using assms(3) by (rule plain_no_symbol)
  have "0xA0 \<notin> set s"
    using assms(3) by (auto simp: list_all_iff plainRune_def isDigit_def isGrouping_def)
  then have rep: "strings_ReplaceAll s 0xA0 32 = s"
    unfolding strings_ReplaceAll_def by (induction s) auto
  have trim: "strings_TrimSpace s = s"
    using assms(1) TrimSpace_idem [of input] by simp
  have sym: "stripSymbol (opt p) c s = Inr s"
    using assms(6) by (simp add: stripSymbol_def)
  have sign: "stripSign (opt p) s = (1, s)"
    using pr by (auto simp: stripSign_def utf8_DecodeRuneInString_def s plainRune_def
        isDigit_def isGrouping_def)
  have "parse p s c =
         (case scan (opt p) s (decimalRune c) (Fraction c) s [] [] False 48 of
            Inl e \<Rightarrow> Inl e
          | Inr (intDigits, fracDigitsRunes) \<Rightarrow>
              assemble (Fraction c) 1 intDigits fracDigitsRunes)"
    using assms(2) by (simp add: parse_def rep trim sym sign)
  then show ?thesis
    using assms nsign nsym by (simp add: Parse_def)
qed

lemma Parse_plain_decimal:
  assumes "strings_TrimSpace input = u @ d # t"
    and "list_all plainRune u" and "list_all plainRune t"
    and "decimalRune c = d" and "isGrouping d" and "d \<notin> set u" and "Fraction c > 0"
    and "StrictGrouping (opt p) \<longrightarrow> (\<forall>g \<in> set u. isGrouping g \<longrightarrow> g = cg)"
    and "currency \<noteq> []" and "lookupCurrency env (strings_TrimSpace currency) = Inr c"
    and "\<not> AllowCurrencySymbol (opt p)"
  shows "Parse env p input currency
         = assemble (Fraction c) 1 (filter isDigit u) (filter isDigit t)"
proof -
  have pl: "list_all plainRune (u @ d # t)"
    using assms(2,3,5) by (simp add: plainRune_def)
  have sc: "scan (opt p) (u @ d # t) (decimalRune c) (Fraction c) (u @ d # t) [] [] False 48
            = Inr (filter isDigit u, filter isDigit t)"
    unfolding assms(4) using assms(2,3,7,5,6,8) by (rule scan_with_decimal)
  show ?thesis
    using Parse_plain [OF assms(1) _ pl assms(9,10,11)] by (simp add: sc)
qed

lemma Parse_plain_integer:
  assumes "strings_TrimSpace input = u" and "u \<noteq> []" and "list_all plainRune u"
    and "Fraction c > 0 \<longrightarrow> decimalRune c \<notin> set u"
    and "StrictGrouping (opt p) \<longrightarrow> (\<forall>g \<in> set u. isGrouping g \<longrightarrow> g = cg)"
    and "currency \<noteq> []" and "lookupCurrency env (strings_TrimSpace currency) = Inr c"
    and "\<not> AllowCurrencySymbol (opt p)"
  shows "Parse env p input currency = assemble (Fraction c) 1 (filter isDigit u) []"
proof -
  have sc: "scan (opt p) u (decimalRune c) (Fraction c) u [] [] False 48
            = Inr (filter isDigit u, [])"
    using assms(3,4,5) by (rule scan_without_decimal)
  show ?thesis
    using Parse_plain [OF assms(1,2,3,6,7,8)] by (simp add: sc)
qed

lemma Parse_digits_sep_digits:
  assumes "a \<noteq> []" and "list_all isDigit a" and "list_all isDigit f"
    and "decimalRune c = d" and "d = 46 \<or> d = 44"
    and "currency \<noteq> []" and "lookupCurrency env (strings_TrimSpace currency) = Inr c"
    and "\<not> AllowCurrencySymbol (opt p)"
  shows "Parse env p (a @ d # f) currency
         = (if Fraction c > 0 then assemble (Fraction c) 1 a f
            else assemble (Fraction c) 1 (a @ f) [])"
proof -
  have g: "isGrouping d" and d32: "d \<noteq> 32" and nd: "\<not> isDigit d"
    using assms(5) by (auto simp: isGrouping_def isDigit_def)
  have pa: "list_all plainRune a" and pf: "list_all plainRune f"
    using assms(2,3) by (simp_all add: digits_plain)
  have pl: "list_all plainRune (a @ d # f)"
    using pa pf g by (simp add: plainRune_def)
  have "isDigit (hd a)" using assms(1,2) by (cases a) auto
  then have h: "hd (a @ d # f) \<noteq> 32" using assms(1) by (auto simp: isDigit_def)
  have "last (a @ d # f) = d \<or> isDigit (last (a @ d # f))"
    using assms(3) by (cases f rule: rev_cases) auto
  then have l: "last (a @ d # f) \<noteq> 32" using d32 by (auto simp: isDigit_def)
  have tr: "strings_TrimSpace (a @ d # f) = a @ d # f"
    using pl h l by (intro TrimSpace_plain) auto
  have da: "d \<notin> set a"
    using assms(2) nd by (auto simp: list_all_iff)
  have ua: "StrictGrouping (opt p) \<longrightarrow> (\<forall>g \<in> set a. isGrouping g \<longrightarrow> g = d)"
    using digits_no_grouping [OF assms(2)] by auto
  show ?thesis
  proof (cases "Fraction c > 0")
    case True
    then show ?thesis
      using Parse_plain_decimal [OF tr pa pf assms(4) g da True ua assms(6,7,8)]
      by (simp add: filter_digits assms(2,3))
  next
    case False
    have u: "StrictGrouping (opt p) \<longrightarrow> (\<forall>g \<in> set (a @ d # f). isGrouping g \<longrightarrow> g = d)"
      using digits_no_grouping [OF assms(2)] digits_no_grouping [OF assms(3)] by auto
    have "Parse env p (a @ d # f) currency
          = assemble (Fraction c) 1 (filter isDigit (a @ d # f)) []"
      using tr pl False u assms(6,7,8) by (intro Parse_plain_integer) auto
    then show ?thesis
      using False nd by (simp add: filter_digits assms(2,3))
  qed
qed

lemma Parse_digits:
  assumes "a \<noteq> []" and "list_all isDigit a"
    and "currency \<noteq> []" and "lookupCurrency env (strings_TrimSpace currency) = Inr c"
    and "\<not> AllowCurrencySymbol (opt p)"
  shows "Parse env p a currency = assemble (Fraction c) 1 a []"
proof -
  have pa: "list_all plainRune a" using assms(2) by (rule digits_plain)
  have "isDigit (hd a)" "isDigit (last a)" using assms(1,2) by (auto simp: list_all_iff)
  then have "hd a \<noteq> 32" "last a \<noteq> 32" by (auto simp: isDigit_def)
  with assms(1) pa have tr: "strings_TrimSpace a = a" by (intro TrimSpace_plain)
  have sc: "scan (opt p) a (decimalRune c) (Fraction c) a [] [] False 48 = Inr (a, [])"
    using scan_digits [OF assms(2), of "opt p" a "decimalRune c" "Fraction c" "[]" "[]" "[]" 48]
    by simp
  show ?thesis
    using Parse_plain [OF tr assms(1) pa assms(3,4,5)] by (simp add: sc)
qed

lemma parse_zero_fraction:
  assumes "Fraction c = 0"
  shows "parse p s c \<noteq> Inl (Err ErrTooManyDecimals)"
proof
  assume a: "parse p s c = Inl (Err ErrTooManyDecimals)"
  let ?s1 = "strings_TrimSpace (strings_ReplaceAll s 0xA0 32)"
  obtain s2 where s2: "stripSymbol (opt p) c ?s1 = Inr s2"
    using a by (cases "stripSymbol (opt p) c ?s1")
      (auto simp: parse_def stripSymbol_def split: if_splits)
  obtain sg s3 where s3: "stripSign (opt p) s2 = (sg, s3)"
    by (cases "stripSign (opt p) s2")
  from a s2 s3 have ne: "s3 \<noteq> []"
    by (auto simp: parse_def split: if_splits)
  show False
  proof (cases "scan (opt p) s3 (decimalRune c) (Fraction c) s3 [] [] False 48")
    case (Inl e)
    with a s2 s3 ne scan_error [OF Inl] show False by (auto simp: parse_def)
  next
    case (Inr r)
    obtain i f where r: "r = (i, f)" by (cases r)
    with Inr assms have "f = []" using scan_no_fraction [of 0 "opt p" s3 "decimalRune c" s3 "[]" 48 i f]
      by simp
    with a s2 s3 ne Inr r assms show False
      by (simp add: parse_def assemble_TooManyDecimals)
  qed
qed

lemma Parse_zero_fraction:
  assumes "lookupCurrency env (strings_TrimSpace currency) = Inr c" and "Fraction c = 0"
  shows "Parse env p input currency \<noteq> Inl (Err ErrTooManyDecimals)"
proof -
  have "parse p s c \<noteq> Inl (Err ErrTooManyDecimals)" for s
    using assms(2) by (rule parse_zero_fraction)
  with assms(1) show ?thesis by (auto simp: Parse_def Let_def)
qed



lemma stripSign_minus:
  assumes "AcceptSigns p" and "list_all unicode_IsSpace sps" and "strings_TrimSpace z = z"
  shows "stripSign p (0x2D # sps @ z) = (- 1, z)"
proof -
  have "strings_TrimSpace (sps @ z) = z"
    using TrimSpace_spaces_prefix [OF assms(2), of z] assms(3) by simp
  then show ?thesis
    using assms(1) by (simp add: stripSign_def utf8_DecodeRuneInString_def)
qed

lemma stripSign_none:
  assumes "s = [] \<or> (hd s \<noteq> 0x2212 \<and> hd s \<noteq> 0x2D \<and> hd s \<noteq> 0x2B)"
  shows "stripSign p s = (1, s)"
  using assms by (cases s) (auto simp: stripSign_def utf8_DecodeRuneInString_def)

lemma parse_unfold:
  "parse p s c =
     (case stripSymbol (opt p) c (strings_TrimSpace (strings_ReplaceAll s 0xA0 32)) of
        Inl e \<Rightarrow> Inl e
      | Inr s2 \<Rightarrow>
          (if snd (stripSign (opt p) s2) = [] then Inl (Err ErrNoDigits)
           else
             (case scan (opt p) (snd (stripSign (opt p) s2)) (decimalRune c) (Fraction c)
                     (snd (stripSign (opt p) s2)) [] [] False 48 of
                Inl e \<Rightarrow> Inl e
              | Inr r \<Rightarrow> assemble (Fraction c) (fst (stripSign (opt p) s2)) (fst r) (snd r))))"
  by (simp add: parse_def Let_def split_beta split: sum.splits prod.splits)

lemma parse_tail_neg:
  assumes "stripSymbol (opt p) c s1 = Inr z" and "stripSign (opt p) z = (1, z)"
    and "stripSymbol (opt p) c s1' = Inr z'" and "stripSign (opt p) z' = (- 1, z)"
    and "strings_TrimSpace (strings_ReplaceAll s 0xA0 32) = s1"
    and "strings_TrimSpace (strings_ReplaceAll s' 0xA0 32) = s1'"
    and "parse p s c = Inr v"
  shows "parse p s' c = Inr (- v)"
proof -
  let ?sc = "scan (opt p) z (decimalRune c) (Fraction c) z [] [] False 48"
  from assms(7) have ne: "z \<noteq> []"
    by (auto simp: parse_unfold assms(1,2,5) split: if_splits)
  from assms(7) ne obtain r where r: "?sc = Inr r"
    by (cases ?sc) (auto simp: parse_unfold assms(1,2,5))
  with assms(7) ne have "assemble (Fraction c) 1 (fst r) (snd r) = Inr v"
    by (simp add: parse_unfold assms(1,2,5))
  then have "assemble (Fraction c) (- 1) (fst r) (snd r) = Inr (- v)"
    by (rule assemble_neg)
  with ne r show ?thesis
    by (simp add: parse_unfold assms(3,4,6))
qed

lemma parse_minus:
  assumes acc: "AcceptSigns (opt p)"
    and core: "core \<noteq> []" "\<not> unicode_IsSpace (hd core)" "\<not> unicode_IsSpace (last core)"
    and nosign: "0x2D \<notin> set core" "0x2B \<notin> set core" "0x2212 \<notin> set core"
    and ws: "list_all unicode_IsSpace ws"
    and gr: "AllowCurrencySymbol (opt p)
             \<longrightarrow> Grapheme c = [] \<or> \<not> unicode_IsSpace (hd (Grapheme c))"
    and ok: "parse p core c = Inr v"
  shows "parse p (0x2D # ws @ core) c = Inr (- v)"
proof -
  let ?rc = "strings_ReplaceAll core 0xA0 32"
  let ?rw = "strings_ReplaceAll ws 0xA0 32"
  let ?g = "Grapheme c"
  have trc: "strings_TrimSpace ?rc = ?rc"
    using core by (rule TrimSpace_ReplaceAll_id)
  have rcne: "?rc \<noteq> []" using core(1) by (simp add: strings_ReplaceAll_def)
  have rw: "list_all unicode_IsSpace ?rw"
    using ws by (auto simp: strings_ReplaceAll_def list_all_iff unicode_IsSpace_def)
  have rcset: "set ?rc \<subseteq> insert 32 (set core)" by (rule ReplaceAll_subset)
  have ns: "0x2D \<notin> set ?rc" "0x2B \<notin> set ?rc" "0x2212 \<notin> set ?rc"
    using rcset nosign by auto
  have m: "\<not> unicode_IsSpace 0x2D" by (simp add: unicode_IsSpace_def)
  have rep: "strings_ReplaceAll (0x2D # ws @ core) 0xA0 32 = 0x2D # ?rw @ ?rc"
    by (simp add: strings_ReplaceAll_def)
  have s1': "strings_TrimSpace (strings_ReplaceAll (0x2D # ws @ core) 0xA0 32) = 0x2D # ?rw @ ?rc"
    unfolding rep
    using TrimSpace_sign_prefix [OF m rw, of ?rc] trc rcne TrimSpace_ends(1) [of ?rc]
    by (simp add: takeWhile_eq_Nil_iff hd_conv_nth)
  show ?thesis
  proof (cases "AllowCurrencySymbol (opt p) \<and> ?g \<noteq> []")
    case False
    have a: "stripSymbol (opt p) c ?rc = Inr ?rc"
    proof (cases "AllowCurrencySymbol (opt p)")
      case True
      with False have "?g = []" by simp
      moreover have "strings_Contains ?rc []" using rcne by (cases ?rc) auto
      ultimately show ?thesis using True rcne by (simp add: stripSymbol_def Replace1_Nil trc)
    next
      case False
      then show ?thesis by (simp add: stripSymbol_def)
    qed
    have tt: "strings_TrimSpace (0x2D # ?rw @ ?rc) = 0x2D # ?rw @ ?rc"
      using s1' rep by simp
    have b: "stripSymbol (opt p) c (0x2D # ?rw @ ?rc) = Inr (0x2D # ?rw @ ?rc)"
    proof (cases "AllowCurrencySymbol (opt p)")
      case True
      with False have "?g = []" by simp
      then show ?thesis using True by (simp add: stripSymbol_def Replace1_Nil tt)
    next
      case False
      then show ?thesis by (simp add: stripSymbol_def)
    qed
    have "hd ?rc \<in> set ?rc" using rcne by simp
    with ns have "hd ?rc \<noteq> 0x2212 \<and> hd ?rc \<noteq> 0x2D \<and> hd ?rc \<noteq> 0x2B" by auto
    then have c1: "stripSign (opt p) ?rc = (1, ?rc)" by (intro stripSign_none) simp
    have c2: "stripSign (opt p) (0x2D # ?rw @ ?rc) = (- 1, ?rc)"
      using acc rw trc by (rule stripSign_minus)
    show ?thesis using a c1 b c2 trc s1' ok by (rule parse_tail_neg)
  next
    case True
    then have al: "AllowCurrencySymbol (opt p)" and gne: "?g \<noteq> []" by simp_all
    let ?y = "strings_Replace1 ?rc ?g"
    have cont: "strings_Contains ?rc ?g"
    proof (rule ccontr)
      assume "\<not> strings_Contains ?rc ?g"
      then have "stripSymbol (opt p) c ?rc = Inl (Err ErrInvalidCurrencySymbol)"
        using al rcne by (simp add: stripSymbol_def)
      with ok show False by (simp add: parse_unfold trc)
    qed
    then have a: "stripSymbol (opt p) c ?rc = Inr (strings_TrimSpace ?y)"
      using al rcne by (simp add: stripSymbol_def)
    have yset: "set (strings_TrimSpace ?y) \<subseteq> set ?rc"
      using TrimSpace_subset [of ?y] Replace1_subset [of ?rc ?g] by blast
    have hdn: "strings_TrimSpace ?y = [] \<or> (hd (strings_TrimSpace ?y) \<noteq> 0x2212
         \<and> hd (strings_TrimSpace ?y) \<noteq> 0x2D \<and> hd (strings_TrimSpace ?y) \<noteq> 0x2B)"
    proof (cases "strings_TrimSpace ?y = []")
      case True
      then show ?thesis by simp
    next
      case False
      then have "hd (strings_TrimSpace ?y) \<in> set ?rc" using yset by auto
      with ns show ?thesis by auto
    qed
    then have c1: "stripSign (opt p) (strings_TrimSpace ?y) = (1, strings_TrimSpace ?y)"
      by (rule stripSign_none)
    have tyne: "strings_TrimSpace ?y \<noteq> []"
      using ok by (auto simp: parse_unfold trc a c1 split: if_splits)
    have "hd ?g \<in> set ?rc"
      using Contains_set [OF cont] gne by auto
    moreover have "\<not> unicode_IsSpace (hd ?g)" using gr al gne by simp
    ultimately have hg: "hd ?g \<notin> set (0x2D # ?rw)"
      using ns(1) rw by (auto simp: list_all_iff)
    have "strings_Contains ((0x2D # ?rw) @ ?rc) ?g" using cont by (rule Contains_prefix)
    moreover have "strings_Replace1 ((0x2D # ?rw) @ ?rc) ?g = (0x2D # ?rw) @ ?y"
      using gne hg by (rule Replace1_prefix)
    ultimately have b: "stripSymbol (opt p) c (0x2D # ?rw @ ?rc)
        = Inr (strings_TrimSpace (0x2D # ?rw @ ?y))"
      using al by (simp add: stripSymbol_def)
    let ?sps = "?rw @ takeWhile unicode_IsSpace ?y"
    have t2: "strings_TrimSpace (0x2D # ?rw @ ?y) = 0x2D # ?sps @ strings_TrimSpace ?y"
      using TrimSpace_sign_prefix [OF m rw tyne] by simp
    have sps: "list_all unicode_IsSpace ?sps"
      using rw by (auto simp: list_all_iff dest: set_takeWhileD)
    have c2: "stripSign (opt p) (strings_TrimSpace (0x2D # ?rw @ ?y))
              = (- 1, strings_TrimSpace ?y)"
      unfolding t2 using acc sps TrimSpace_idem by (rule stripSign_minus)
    show ?thesis using a c1 b c2 trc s1' ok by (rule parse_tail_neg)
  qed
qed

section \<open>\<open>Parse\<close> on every input that reaches the loop\<close>

lemma parse_prepare:
  "parse p s0 c =
     (case prepare p s0 c of
        Inl e \<Rightarrow> Inl e
      | Inr (sign, s) \<Rightarrow>
          if s = [] then Inl (Err ErrNoDigits)
          else (case scan (opt p) s (decimalRune c) (Fraction c) s [] [] False 48 of
                  Inl e \<Rightarrow> Inl e
                | Inr (intDigits, fracDigitsRunes) \<Rightarrow>
                    assemble (Fraction c) sign intDigits fracDigitsRunes))"
  by (simp add: parse_def prepare_def Let_def split: sum.splits prod.splits)

lemma Parse_reachesLoop:
  assumes "reachesLoop env p input currency c sign s"
  shows "Parse env p input currency =
         (case scan (opt p) s (decimalRune c) (Fraction c) s [] [] False 48 of
            Inl e \<Rightarrow> Inl e
          | Inr (intDigits, fracDigitsRunes) \<Rightarrow>
              assemble (Fraction c) sign intDigits fracDigitsRunes)"
proof -
  from assms have pr: "prepare p (strings_TrimSpace input) c = Inr (sign, s)" and ne: "s \<noteq> []"
    by (simp_all add: reachesLoop_def)
  have "parse p (strings_TrimSpace input) c =
         (case scan (opt p) s (decimalRune c) (Fraction c) s [] [] False 48 of
            Inl e \<Rightarrow> Inl e
          | Inr (intDigits, fracDigitsRunes) \<Rightarrow>
              assemble (Fraction c) sign intDigits fracDigitsRunes)"
    by (simp add: parse_prepare pr ne)
  with assms show ?thesis
    by (auto simp: reachesLoop_def Parse_def Let_def)
qed

lemma scan_first_decimal:
  assumes "list_all plainRune u" and "list_all plainRune t"
    and "fd > 0" and "\<not> isDigit dec" and "dec \<notin> set u"
    and "StrictGrouping p \<longrightarrow> (\<forall>g \<in> set u. isGrouping g \<longrightarrow> g = cg)"
  shows "scan p s dec fd (u @ dec # t) [] [] False 48
         = Inr (filter isDigit u, filter isDigit t)"
proof -
  let ?l = "if StrictGrouping p \<and> list_ex isGrouping u then cg else 48"
  have "scan p s dec fd (u @ dec # t) [] [] False 48
        = scan p s dec fd (dec # t) ([] @ filter isDigit u) [] False ?l"
    using assms(1,5,6) by (intro scan_before_decimal) auto
  also have "\<dots> = scan p s dec fd t (filter isDigit u) [] True ?l"
  proof -
    from assms(4) have "\<not> (dec \<ge> 48 \<and> dec \<le> 57)" by (simp add: isDigit_def)
    with assms(3) show ?thesis by auto
  qed
  also have "\<dots> = Inr (filter isDigit u, [] @ filter isDigit t)"
    using assms(2) by (rule scan_after_decimal)
  finally show ?thesis by simp
qed

lemma Parse_loop_decimal:
  assumes "reachesLoop env p input currency c sign (u @ d # t)"
    and "list_all plainRune u" and "list_all plainRune t"
    and "decimalRune c = d" and "\<not> isDigit d" and "d \<notin> set u" and "Fraction c > 0"
    and "StrictGrouping (opt p) \<longrightarrow> (\<forall>g \<in> set u. isGrouping g \<longrightarrow> g = cg)"
  shows "Parse env p input currency
         = assemble (Fraction c) sign (filter isDigit u) (filter isDigit t)"
proof -
  have sc: "scan (opt p) (u @ d # t) (decimalRune c) (Fraction c) (u @ d # t) [] [] False 48
            = Inr (filter isDigit u, filter isDigit t)"
    unfolding assms(4) using assms(2,3,7,5,6,8) by (rule scan_first_decimal)
  show ?thesis
    using Parse_reachesLoop [OF assms(1)] by (simp add: sc)
qed

lemma Parse_loop_integer:
  assumes "reachesLoop env p input currency c sign u"
    and "list_all plainRune u"
    and "Fraction c > 0 \<longrightarrow> decimalRune c \<notin> set u"
    and "StrictGrouping (opt p) \<longrightarrow> (\<forall>g \<in> set u. isGrouping g \<longrightarrow> g = cg)"
  shows "Parse env p input currency = assemble (Fraction c) sign (filter isDigit u) []"
proof -
  have sc: "scan (opt p) u (decimalRune c) (Fraction c) u [] [] False 48
            = Inr (filter isDigit u, [])"
    using assms(2,3,4) by (rule scan_without_decimal)
  show ?thesis
    using Parse_reachesLoop [OF assms(1)] by (simp add: sc)
qed

lemma assemble_pad:
  assumes "i \<noteq> [] \<or> f \<noteq> []" and "int (length f + k) \<le> fd"
  shows "assemble fd sg i (f @ replicate k 48) = assemble fd sg i f"
proof -
  let ?g = "f @ replicate k 48"
  have "nat (fd - int (length f)) = k + nat (fd - int (length ?g))"
    using assms(2) by simp
  then have pad: "?g @ replicate (nat (fd - int (length ?g))) 48
        = f @ replicate (nat (fd - int (length f))) 48"
    by (simp add: replicate_add)
  have c1: "\<not> (length i = 0 \<and> length ?g = 0)" "\<not> (length i = 0 \<and> length f = 0)"
    using assms(1) by auto
  have c2: "\<not> int (length ?g) > fd" "\<not> int (length f) > fd"
    using assms(2) by auto
  show ?thesis
    unfolding assemble_def Let_def pad by (simp only: c1 c2 if_False)
qed

lemma assemble_value:
  assumes "filter isDigit u \<noteq> [] \<or> filter isDigit t \<noteq> []"
    and "int (length (filter isDigit t)) \<le> fd" and "fd \<le> 9"
  shows "assemble fd sg (filter isDigit u) (filter isDigit t) =
         Inr (sg * (of_nat (decimalValue (filter isDigit u)) * 10 ^ nat fd
               + of_nat (decimalValue (filter isDigit t)
                   * 10 ^ (nat fd - length (filter isDigit t)))))"
  using assms by (intro assemble_digits) (auto simp: list_all_iff)

lemma Parse_one_padded:
  assumes "Fraction c = n" and "0 \<le> n" and "n \<le> 9"
    and "decimalRune c = d" and "d = 46 \<or> d = 44"
    and "currency \<noteq> []" and "lookupCurrency env (strings_TrimSpace currency) = Inr c"
    and "\<not> AllowCurrencySymbol (opt p)"
  shows "Parse env p (str ''1'' @ [d] @ replicate (nat n) 48) currency
           = Parse env p (str ''1'') currency
         \<and> Parse env p (str ''1'') currency = Inr (10 ^ nat n)"
proof -
  let ?z = "replicate (nat n) 48 :: rune list"
  have one: "str ''1'' \<noteq> []" "list_all isDigit (str ''1'')"
    by (simp_all add: str_def isDigit_def)
  have zz: "list_all isDigit ?z" "int (length ?z) \<le> n"
    using assms(2) by (auto simp: list_all_iff isDigit_def)
  have dv1: "decimalValue (str ''1'') = 1" by (simp add: decimalValue_def str_def)
  have dvz: "decimalValue ?z = 0"
    using decimalValue_pad [of "[]" "nat n"] by (simp add: decimalValue_def)
  have p1: "Parse env p (str ''1'') currency = Inr (10 ^ nat n)"
  proof -
    have "Parse env p (str ''1'') currency = assemble n 1 (str ''1'') []"
      using Parse_digits [OF one assms(6,7,8)] assms(1) by simp
    also have "\<dots> = Inr (1 * (word_of_nat (decimalValue (str ''1'')) * 10 ^ nat n
                  + word_of_nat (decimalValue [] * 10 ^ (nat n - length ([]::rune list)))))"
      using one assms(2,3) by (intro assemble_digits) auto
    also have "\<dots> = Inr (10 ^ nat n)"
      unfolding dv1 by (simp add: decimalValue_def)
    finally show ?thesis .
  qed
  have p2: "Parse env p (str ''1'' @ d # ?z) currency = Inr (10 ^ nat n)"
  proof (cases "n > 0")
    case True
    have "Parse env p (str ''1'' @ d # ?z) currency = assemble n 1 (str ''1'') ?z"
      using Parse_digits_sep_digits [OF one zz(1) assms(4,5,6,7,8)] True assms(1) by simp
    also have "\<dots> = Inr (1 * (word_of_nat (decimalValue (str ''1'')) * 10 ^ nat n
                  + word_of_nat (decimalValue ?z * 10 ^ (nat n - length ?z))))"
      using one zz assms(3) by (intro assemble_digits) auto
    also have "\<dots> = Inr (10 ^ nat n)"
      unfolding dv1 dvz by simp
    finally show ?thesis .
  next
    case False
    with assms(2) have n0: "n = 0" by simp
    have "Parse env p (str ''1'' @ d # ?z) currency = assemble n 1 (str ''1'' @ ?z) []"
      using Parse_digits_sep_digits [OF one zz(1) assms(4,5,6,7,8)] False assms(1) by simp
    also have "\<dots> = assemble n 1 (str ''1'') []" by (simp add: n0)
    also have "\<dots> = Inr (1 * (word_of_nat (decimalValue (str ''1'')) * 10 ^ nat n
                  + word_of_nat (decimalValue [] * 10 ^ (nat n - length ([]::rune list)))))"
      using one assms(2,3) by (intro assemble_digits) auto
    also have "\<dots> = Inr (10 ^ nat n)"
      unfolding dv1 by (simp add: decimalValue_def)
    finally show ?thesis .
  qed
  from p1 p2 show ?thesis by simp
qed

section \<open>C1: padding of the fraction\<close>

text \<open>
  C1 (as amended). The fraction is marked by the decimal separator \<open>d\<close> of the currency,
  not by the period. Let the currency have \<open>n \<ge> 1\<close> fraction digits. Take any input, with
  any options, signed or not, with the symbol when symbols are allowed, that reaches the
  loop with a string \<open>u d t\<close> of digits and grouping characters (\<open>u\<close> without \<open>d\<close>, uniform
  grouping in \<open>u\<close> under \<open>StrictGrouping\<close>) holding at least one digit, and any input that
  reaches the loop with the same sign and the same string followed by \<open>k\<close> zeros, no more
  than \<open>n\<close> fractional digits in all: both calls return the same result, and for \<open>n \<le> 9\<close>
  it is the value of the fraction padded with zeros up to \<open>n\<close> digits. An input without
  separator and the input with \<open>d\<close> and \<open>n\<close> zeros added give the same result as well. So
  \<open>1\<close>, \<open>d\<close> and \<open>n\<close> zeros is parsed as \<open>1\<close> is, to \<open>10 ^ n\<close>, for \<open>d\<close> a period or a comma, and
  \<open>2,28\<close> for CLF under the default options is \<open>22800\<close>.
\<close>

theorem C1_fraction_padding:
  "(reachesLoop env p input1 currency c sign (u @ [d] @ t)
      \<and> reachesLoop env p input2 currency c sign (u @ [d] @ t @ replicate k 48)
      \<and> list_all plainRune u \<and> list_all plainRune t
      \<and> decimalRune c = d \<and> \<not> isDigit d \<and> d \<notin> set u
      \<and> (StrictGrouping (opt p) \<longrightarrow> (\<forall>g \<in> set u. isGrouping g \<longrightarrow> g = cg))
      \<and> Fraction c = n \<and> n > 0
      \<and> (filter isDigit u \<noteq> [] \<or> filter isDigit t \<noteq> [])
      \<and> int (length (filter isDigit t) + k) \<le> n
    \<longrightarrow> Parse env p input1 currency = Parse env p input2 currency
        \<and> (n \<le> 9 \<longrightarrow> Parse env p input1 currency
              = Inr (sign * (word_of_nat (decimalValue (filter isDigit u)) * 10 ^ nat n
                     + word_of_nat (decimalValue (filter isDigit t)
                         * 10 ^ (nat n - length (filter isDigit t)))))))
   \<and> (reachesLoop env p input3 currency c sign u
      \<and> reachesLoop env p input4 currency c sign (u @ [d] @ replicate (nat n) 48)
      \<and> list_all plainRune u \<and> decimalRune c = d \<and> \<not> isDigit d \<and> d \<notin> set u
      \<and> (StrictGrouping (opt p) \<longrightarrow> (\<forall>g \<in> set u. isGrouping g \<longrightarrow> g = cg))
      \<and> Fraction c = n \<and> n > 0 \<and> filter isDigit u \<noteq> []
    \<longrightarrow> Parse env p input3 currency = Parse env p input4 currency)
   \<and> (Fraction c = n \<and> 0 \<le> n \<and> n \<le> 9 \<and> decimalRune c = d \<and> (d = 46 \<or> d = 44)
      \<and> currency \<noteq> [] \<and> lookupCurrency env (strings_TrimSpace currency) = Inr c
      \<and> \<not> AllowCurrencySymbol (opt p)
    \<longrightarrow> Parse env p (str ''1'' @ [d] @ replicate (nat n) 48) currency
          = Parse env p (str ''1'') currency
        \<and> Parse env p (str ''1'') currency = Inr (10 ^ nat n))
   \<and> Parse (specEnv lc) (NewAmountParser []) (str ''2,28'') (str ''CLF'') = Inr 22800"
proof (intro conjI impI)
  assume h: "reachesLoop env p input1 currency c sign (u @ [d] @ t)
      \<and> reachesLoop env p input2 currency c sign (u @ [d] @ t @ replicate k 48)
      \<and> list_all plainRune u \<and> list_all plainRune t
      \<and> decimalRune c = d \<and> \<not> isDigit d \<and> d \<notin> set u
      \<and> (StrictGrouping (opt p) \<longrightarrow> (\<forall>g \<in> set u. isGrouping g \<longrightarrow> g = cg))
      \<and> Fraction c = n \<and> n > 0
      \<and> (filter isDigit u \<noteq> [] \<or> filter isDigit t \<noteq> [])
      \<and> int (length (filter isDigit t) + k) \<le> n"
  let ?z = "replicate k 48 :: rune list"
  have r1: "reachesLoop env p input1 currency c sign (u @ d # t)"
    and r2: "reachesLoop env p input2 currency c sign (u @ d # (t @ ?z))"
    using h by simp_all
  have pu: "list_all plainRune u" and pt: "list_all plainRune t"
    and dd: "decimalRune c = d" and nd: "\<not> isDigit d" and du: "d \<notin> set u"
    and fp: "Fraction c > 0" and fc: "Fraction c = n"
    and sg: "StrictGrouping (opt p) \<longrightarrow> (\<forall>g \<in> set u. isGrouping g \<longrightarrow> g = cg)"
    and dg: "filter isDigit u \<noteq> [] \<or> filter isDigit t \<noteq> []"
    and le: "int (length (filter isDigit t) + k) \<le> n"
    using h by simp_all
  have pz: "list_all plainRune (t @ ?z)"
    using pt by (auto simp: list_all_iff plainRune_def isDigit_def)
  have fz: "filter isDigit (t @ ?z) = filter isDigit t @ ?z"
    by (simp add: isDigit_def)
  have a1: "Parse env p input1 currency
            = assemble n sign (filter isDigit u) (filter isDigit t)"
    using Parse_loop_decimal [OF r1 pu pt dd nd du fp sg] by (simp only: fc)
  have a2: "Parse env p input2 currency
            = assemble n sign (filter isDigit u) (filter isDigit t @ ?z)"
    using Parse_loop_decimal [OF r2 pu pz dd nd du fp sg] by (simp only: fc fz)
  have "assemble n sign (filter isDigit u) (filter isDigit t @ ?z)
        = assemble n sign (filter isDigit u) (filter isDigit t)"
    using dg le by (rule assemble_pad)
  with a1 a2 show "Parse env p input1 currency = Parse env p input2 currency" by simp
  assume n9: "n \<le> 9"
  show "Parse env p input1 currency
        = Inr (sign * (word_of_nat (decimalValue (filter isDigit u)) * 10 ^ nat n
               + word_of_nat (decimalValue (filter isDigit t)
                   * 10 ^ (nat n - length (filter isDigit t)))))"
  proof -
    have "int (length (filter isDigit t)) \<le> n" using le by simp
    with dg show ?thesis unfolding a1 using n9 by (rule assemble_value)
  qed
next
  assume h: "reachesLoop env p input3 currency c sign u
      \<and> reachesLoop env p input4 currency c sign (u @ [d] @ replicate (nat n) 48)
      \<and> list_all plainRune u \<and> decimalRune c = d \<and> \<not> isDigit d \<and> d \<notin> set u
      \<and> (StrictGrouping (opt p) \<longrightarrow> (\<forall>g \<in> set u. isGrouping g \<longrightarrow> g = cg))
      \<and> Fraction c = n \<and> n > 0 \<and> filter isDigit u \<noteq> []"
  let ?z = "replicate (nat n) 48 :: rune list"
  have r3: "reachesLoop env p input3 currency c sign u"
    and r4: "reachesLoop env p input4 currency c sign (u @ d # ?z)"
    using h by simp_all
  have pu: "list_all plainRune u"
    and dd: "decimalRune c = d" and nd: "\<not> isDigit d" and du: "d \<notin> set u"
    and fp: "Fraction c > 0" and fc: "Fraction c = n"
    and sg: "StrictGrouping (opt p) \<longrightarrow> (\<forall>g \<in> set u. isGrouping g \<longrightarrow> g = cg)"
    and dg: "filter isDigit u \<noteq> [] \<or> [] \<noteq> ([]::rune list)"
    using h by simp_all
  have ds: "Fraction c > 0 \<longrightarrow> decimalRune c \<notin> set u" using dd du by simp
  have pz: "list_all plainRune ?z"
    by (auto simp: list_all_iff plainRune_def isDigit_def)
  have fz: "filter isDigit ?z = [] @ ?z" by (simp add: isDigit_def)
  have le: "int (length ([]::rune list) + nat n) \<le> n" using fp fc by simp
  have a3: "Parse env p input3 currency = assemble n sign (filter isDigit u) []"
    using Parse_loop_integer [OF r3 pu ds sg] by (simp only: fc)
  have a4: "Parse env p input4 currency = assemble n sign (filter isDigit u) ([] @ ?z)"
    using Parse_loop_decimal [OF r4 pu pz dd nd du fp sg] by (simp only: fc fz)
  have "assemble n sign (filter isDigit u) ([] @ ?z) = assemble n sign (filter isDigit u) []"
    using dg le by (rule assemble_pad)
  with a3 a4 show "Parse env p input3 currency = Parse env p input4 currency" by simp
next
  assume h: "Fraction c = n \<and> 0 \<le> n \<and> n \<le> 9 \<and> decimalRune c = d \<and> (d = 46 \<or> d = 44)
      \<and> currency \<noteq> [] \<and> lookupCurrency env (strings_TrimSpace currency) = Inr c
      \<and> \<not> AllowCurrencySymbol (opt p)"
  then have o: "Parse env p (str ''1'' @ [d] @ replicate (nat n) 48) currency
           = Parse env p (str ''1'') currency
         \<and> Parse env p (str ''1'') currency = Inr (10 ^ nat n)"
    by (intro Parse_one_padded) auto
  from o show "Parse env p (str ''1'' @ [d] @ replicate (nat n) 48) currency
          = Parse env p (str ''1'') currency" ..
  from o show "Parse env p (str ''1'') currency = Inr (10 ^ nat n)" ..
next
  show "Parse (specEnv lc) (NewAmountParser []) (str ''2,28'') (str ''CLF'') = Inr 22800"
    by (simp add: eval_defs)
qed


theorem C1_fraction_padding_witness:
  "(reachesLoop (specEnv id) (NewAmountParser []) (str ''-1,234.5'') (str ''USD'') USD (- 1)
        (str ''1,234'' @ [46] @ str ''5'')
    \<and> reachesLoop (specEnv id) (NewAmountParser []) (str ''-1,234.50'') (str ''USD'') USD (- 1)
        (str ''1,234'' @ [46] @ str ''5'' @ replicate 1 48)
    \<and> reachesLoop (specEnv id) (NewAmountParser []) (str ''-1,234'') (str ''USD'') USD (- 1)
        (str ''1,234'')
    \<and> reachesLoop (specEnv id) (NewAmountParser []) (str ''-1,234.00'') (str ''USD'') USD (- 1)
        (str ''1,234'' @ [46] @ replicate (nat 2) 48)
    \<and> list_all plainRune (str ''1,234'') \<and> list_all plainRune (str ''5'')
    \<and> decimalRune USD = 46 \<and> \<not> isDigit 46 \<and> 46 \<notin> set (str ''1,234'')
    \<and> \<not> StrictGrouping (opt (NewAmountParser []))
    \<and> \<not> AllowCurrencySymbol (opt (NewAmountParser []))
    \<and> Fraction USD = 2 \<and> filter isDigit (str ''1,234'') = str ''1234''
    \<and> filter isDigit (str ''5'') = str ''5''
    \<and> lookupCurrency (specEnv id) (strings_TrimSpace (str ''USD'')) = Inr USD
    \<and> Parse (specEnv id) (NewAmountParser []) (str ''-1,234.5'') (str ''USD'')
        = Parse (specEnv id) (NewAmountParser []) (str ''-1,234.50'') (str ''USD'')
    \<and> Parse (specEnv id) (NewAmountParser []) (str ''-1,234.5'') (str ''USD'') = Inr (- 123450)
    \<and> Parse (specEnv id) (NewAmountParser []) (str ''-1,234'') (str ''USD'')
        = Parse (specEnv id) (NewAmountParser []) (str ''-1,234.00'') (str ''USD'')
    \<and> Parse (specEnv id) (NewAmountParser []) (str ''1.00'') (str ''USD'')
        = Parse (specEnv id) (NewAmountParser []) (str ''1'') (str ''USD'')
    \<and> Parse (specEnv id) (NewAmountParser []) (str ''1'') (str ''USD'') = Inr 100)
   \<and> (reachesLoop (specEnv id) (NewAmountParser [WithAllowCurrencySymbol True])
        (str ''$1.5'') (str ''USD'') USD 1 (str ''1'' @ [46] @ str ''5'')
    \<and> reachesLoop (specEnv id) (NewAmountParser [WithAllowCurrencySymbol True])
        (str ''$1.50'') (str ''USD'') USD 1 (str ''1'' @ [46] @ str ''5'' @ replicate 1 48)
    \<and> AllowCurrencySymbol (opt (NewAmountParser [WithAllowCurrencySymbol True]))
    \<and> \<not> StrictGrouping (opt (NewAmountParser [WithAllowCurrencySymbol True]))
    \<and> Parse (specEnv id) (NewAmountParser [WithAllowCurrencySymbol True])
        (str ''$1.5'') (str ''USD'')
        = Parse (specEnv id) (NewAmountParser [WithAllowCurrencySymbol True])
            (str ''$1.50'') (str ''USD'')
    \<and> Parse (specEnv id) (NewAmountParser [WithAllowCurrencySymbol True])
        (str ''$1.5'') (str ''USD'') = Inr 150)
   \<and> (reachesLoop (specEnv id) (NewAmountParser []) (str ''.5'') (str ''USD'') USD 1
        ([] @ [46] @ str ''5'')
    \<and> reachesLoop (specEnv id) (NewAmountParser []) (str ''.50'') (str ''USD'') USD 1
        ([] @ [46] @ str ''5'' @ replicate 1 48)
    \<and> Parse (specEnv id) (NewAmountParser []) (str ''.5'') (str ''USD'')
        = Parse (specEnv id) (NewAmountParser []) (str ''.50'') (str ''USD'')
    \<and> Parse (specEnv id) (NewAmountParser []) (str ''.5'') (str ''USD'') = Inr 50)
   \<and> (reachesLoop (specEnv id) (NewAmountParser []) (str ''2,28'') (str ''CLF'') CLF 1
        (str ''2'' @ [44] @ str ''28'')
    \<and> reachesLoop (specEnv id) (NewAmountParser []) (str ''2,2800'') (str ''CLF'') CLF 1
        (str ''2'' @ [44] @ str ''28'' @ replicate 2 48)
    \<and> decimalRune CLF = 44 \<and> Fraction CLF = 4
    \<and> Parse (specEnv id) (NewAmountParser []) (str ''2,28'') (str ''CLF'')
        = Parse (specEnv id) (NewAmountParser []) (str ''2,2800'') (str ''CLF'')
    \<and> Parse (specEnv id) (NewAmountParser []) (str ''2,28'') (str ''CLF'') = Inr 22800)"
proof -
  note ev = eval_defs reachesLoop_def prepare_def plainRune_def isDigit_def isGrouping_def
    decimalValue_def
  have s1: "reachesLoop (specEnv id) (NewAmountParser []) (str ''-1,234.5'') (str ''USD'') USD (- 1)
        (str ''1,234'' @ [46] @ str ''5'')
    \<and> reachesLoop (specEnv id) (NewAmountParser []) (str ''-1,234.50'') (str ''USD'') USD (- 1)
        (str ''1,234'' @ [46] @ str ''5'' @ replicate 1 48)
    \<and> reachesLoop (specEnv id) (NewAmountParser []) (str ''-1,234'') (str ''USD'') USD (- 1)
        (str ''1,234'')
    \<and> reachesLoop (specEnv id) (NewAmountParser []) (str ''-1,234.00'') (str ''USD'') USD (- 1)
        (str ''1,234'' @ [46] @ replicate (nat 2) 48)
    \<and> list_all plainRune (str ''1,234'') \<and> list_all plainRune (str ''5'')
    \<and> decimalRune USD = 46 \<and> \<not> isDigit 46 \<and> 46 \<notin> set (str ''1,234'')
    \<and> \<not> StrictGrouping (opt (NewAmountParser []))
    \<and> \<not> AllowCurrencySymbol (opt (NewAmountParser []))
    \<and> Fraction USD = 2 \<and> filter isDigit (str ''1,234'') = str ''1234''
    \<and> filter isDigit (str ''5'') = str ''5''
    \<and> lookupCurrency (specEnv id) (strings_TrimSpace (str ''USD'')) = Inr USD
    \<and> Parse (specEnv id) (NewAmountParser []) (str ''-1,234.5'') (str ''USD'')
        = Parse (specEnv id) (NewAmountParser []) (str ''-1,234.50'') (str ''USD'')
    \<and> Parse (specEnv id) (NewAmountParser []) (str ''-1,234.5'') (str ''USD'') = Inr (- 123450)
    \<and> Parse (specEnv id) (NewAmountParser []) (str ''-1,234'') (str ''USD'')
        = Parse (specEnv id) (NewAmountParser []) (str ''-1,234.00'') (str ''USD'')
    \<and> Parse (specEnv id) (NewAmountParser []) (str ''1.00'') (str ''USD'')
        = Parse (specEnv id) (NewAmountParser []) (str ''1'') (str ''USD'')
    \<and> Parse (specEnv id) (NewAmountParser []) (str ''1'') (str ''USD'') = Inr 100"
    using C1_fraction_padding [of "specEnv id" "NewAmountParser []" "str ''-1,234.5''"
        "str ''USD''" USD "- 1" "str ''1,234''" 46 "str ''5''" "str ''-1,234.50''" 1 44 2
        "str ''-1,234''" "str ''-1,234.00''" id]
    by (simp add: ev)
  have s2: "reachesLoop (specEnv id) (NewAmountParser [WithAllowCurrencySymbol True])
        (str ''$1.5'') (str ''USD'') USD 1 (str ''1'' @ [46] @ str ''5'')
    \<and> reachesLoop (specEnv id) (NewAmountParser [WithAllowCurrencySymbol True])
        (str ''$1.50'') (str ''USD'') USD 1 (str ''1'' @ [46] @ str ''5'' @ replicate 1 48)
    \<and> AllowCurrencySymbol (opt (NewAmountParser [WithAllowCurrencySymbol True]))
    \<and> \<not> StrictGrouping (opt (NewAmountParser [WithAllowCurrencySymbol True]))
    \<and> Parse (specEnv id) (NewAmountParser [WithAllowCurrencySymbol True])
        (str ''$1.5'') (str ''USD'')
        = Parse (specEnv id) (NewAmountParser [WithAllowCurrencySymbol True])
            (str ''$1.50'') (str ''USD'')
    \<and> Parse (specEnv id) (NewAmountParser [WithAllowCurrencySymbol True])
        (str ''$1.5'') (str ''USD'') = Inr 150"
    using C1_fraction_padding [of "specEnv id" "NewAmountParser [WithAllowCurrencySymbol True]"
        "str ''$1.5''" "str ''USD''" USD 1 "str ''1''" 46 "str ''5''" "str ''$1.50''" 1 44 2
        "[]" "[]" id]
    by (simp add: ev)
  have s3: "reachesLoop (specEnv id) (NewAmountParser []) (str ''.5'') (str ''USD'') USD 1
        ([] @ [46] @ str ''5'')
    \<and> reachesLoop (specEnv id) (NewAmountParser []) (str ''.50'') (str ''USD'') USD 1
        ([] @ [46] @ str ''5'' @ replicate 1 48)
    \<and> Parse (specEnv id) (NewAmountParser []) (str ''.5'') (str ''USD'')
        = Parse (specEnv id) (NewAmountParser []) (str ''.50'') (str ''USD'')
    \<and> Parse (specEnv id) (NewAmountParser []) (str ''.5'') (str ''USD'') = Inr 50"
    using C1_fraction_padding [of "specEnv id" "NewAmountParser []"
        "str ''.5''" "str ''USD''" USD 1 "[]" 46 "str ''5''" "str ''.50''" 1 44 2
        "[]" "[]" id]
    by (simp add: ev)
  have s4: "reachesLoop (specEnv id) (NewAmountParser []) (str ''2,28'') (str ''CLF'') CLF 1
        (str ''2'' @ [44] @ str ''28'')
    \<and> reachesLoop (specEnv id) (NewAmountParser []) (str ''2,2800'') (str ''CLF'') CLF 1
        (str ''2'' @ [44] @ str ''28'' @ replicate 2 48)
    \<and> decimalRune CLF = 44 \<and> Fraction CLF = 4
    \<and> Parse (specEnv id) (NewAmountParser []) (str ''2,28'') (str ''CLF'')
        = Parse (specEnv id) (NewAmountParser []) (str ''2,2800'') (str ''CLF'')
    \<and> Parse (specEnv id) (NewAmountParser []) (str ''2,28'') (str ''CLF'') = Inr 22800"
    using C1_fraction_padding [of "specEnv id" "NewAmountParser []"
        "str ''2,28''" "str ''CLF''" CLF 1 "str ''2''" 44 "str ''28''" "str ''2,2800''" 2 46 4
        "[]" "[]" id]
    by (simp add: ev)
  show ?thesis
    by (rule conjI [OF s1 conjI [OF s2 conjI [OF s3 s4]]])
qed

text \<open>
  C1 (as stated) fails: CLF has four fraction digits and the comma as decimal separator,
  so in \<open>1.0000\<close> the period is a grouping separator and the five digits are the integer
  part: the result is \<open>100000000\<close>, while \<open>1\<close> gives \<open>10000\<close>. And an input without any
  digit is not padded: \<open>.\<close> for USD is \<open>ErrNoDigits\<close>, while \<open>.00\<close> is \<open>0\<close>.
\<close>

theorem C1_counterexample:
  "Fraction CLF = 4 \<and> str ''1.'' @ replicate 4 48 = str ''1.0000''
   \<and> Parse (specEnv id) (NewAmountParser []) (str ''1.0000'') (str ''CLF'') = Inr 100000000
   \<and> Parse (specEnv id) (NewAmountParser []) (str ''1'') (str ''CLF'') = Inr 10000
   \<and> (100000000 :: int64) \<noteq> 10000
   \<and> Parse (specEnv id) (NewAmountParser []) (str ''2,28'') (str ''CLF'') = Inr 22800
   \<and> Parse (specEnv id) (NewAmountParser []) (str ''.'') (str ''USD'') = Inl (Err ErrNoDigits)
   \<and> Parse (specEnv id) (NewAmountParser []) (str ''.00'') (str ''USD'') = Inr 0"
  by (simp add: eval_defs)

section \<open>C2: a minus sign in front of the input\<close>

text \<open>
  C2. Let signs be accepted and let \<open>Parse\<close> succeed with value \<open>v\<close> on an input that holds
  none of the sign characters \<open>-\<close>, \<open>+\<close>, \<open>U+2212\<close>. Then \<open>Parse\<close> succeeds on the same input
  with \<open>-\<close> in front and returns \<open>- v\<close>, so that \<open>v\<close> is the negation of that result. Two
  facts about the data outside the parser are used: white space has no lower-case form
  other than itself, and the symbol of the currency, when symbols are allowed, is empty
  or does not begin with white space.
\<close>

theorem C2_minus_negates:
  assumes "AcceptSigns (opt p)"
    and "0x2D \<notin> set input" and "0x2B \<notin> set input" and "0x2212 \<notin> set input"
    and "Parse env p input currency = Inr v"
    and "\<forall>r. unicode_IsSpace r \<longrightarrow> lowerCase env r = r"
    and "\<forall>c. AllowCurrencySymbol (opt p) \<and> lookupCurrency env (strings_TrimSpace currency) = Inr c
           \<longrightarrow> Grapheme c = [] \<or> \<not> unicode_IsSpace (hd (Grapheme c))"
  shows "\<exists>w. Parse env p (0x2D # input) currency = Inr w \<and> v = - w"
proof -
  let ?core = "strings_TrimSpace input"
  let ?ws = "takeWhile unicode_IsSpace input"
  from assms(5) have ne: "?core \<noteq> []" and cur: "currency \<noteq> []"
    by (auto simp: Parse_def Let_def split: if_splits)
  from assms(5) ne cur obtain c where c: "lookupCurrency env (strings_TrimSpace currency) = Inr c"
    by (cases "lookupCurrency env (strings_TrimSpace currency)") (auto simp: Parse_def Let_def)
  from assms(5) ne cur c have gate: "AllowCurrencySymbol (opt p) \<or> \<not> containsCurrencySymbol env ?core"
    and ok: "parse p ?core c = Inr v"
    by (auto simp: Parse_def Let_def split: if_splits)
  have m: "\<not> unicode_IsSpace 0x2D" by (simp add: unicode_IsSpace_def)
  have tr: "strings_TrimSpace (0x2D # input) = 0x2D # ?ws @ ?core"
    using m ne by (rule TrimSpace_Cons_nonspace)
  have ws: "list_all unicode_IsSpace ?ws"
    by (auto simp: list_all_iff dest: set_takeWhileD)
  have sub: "set ?core \<subseteq> set input" by (rule TrimSpace_subset)
  have ns: "0x2D \<notin> set ?core" "0x2B \<notin> set ?core" "0x2212 \<notin> set ?core"
    using sub assms(2,3,4) by auto
  have gr: "AllowCurrencySymbol (opt p)
             \<longrightarrow> Grapheme c = [] \<or> \<not> unicode_IsSpace (hd (Grapheme c))"
    using assms(7) c by blast
  have pm: "parse p (0x2D # ?ws @ ?core) c = Inr (- v)"
    using assms(1) ne TrimSpace_ends [OF ne] ns ws gr ok by (rule parse_minus)
  have g2: "AllowCurrencySymbol (opt p) \<or> \<not> containsCurrencySymbol env (0x2D # ?ws @ ?core)"
  proof (cases "AllowCurrencySymbol (opt p)")
    case True
    then show ?thesis by simp
  next
    case False
    with gate have "\<not> containsCurrencySymbol env ?core" by simp
    moreover have "list_all (\<lambda>r. r = 0x2D \<or> unicode_IsSpace r) (0x2D # ?ws)"
      using ws by (auto simp: list_all_iff)
    ultimately have "\<not> containsCurrencySymbol env ((0x2D # ?ws) @ ?core)"
      using assms(6) by (rule symbol_gate_prefix)
    then show ?thesis by simp
  qed
  have "Parse env p (0x2D # input) currency = Inr (- v)"
    using assms(1) cur c g2 pm by (auto simp: Parse_def tr)
  then show ?thesis by simp
qed

theorem C2_minus_negates_witness:
  "AcceptSigns (opt (NewAmountParser []))
   \<and> 0x2D \<notin> set (str ''1,455.00'') \<and> 0x2B \<notin> set (str ''1,455.00'')
   \<and> 0x2212 \<notin> set (str ''1,455.00'')
   \<and> Parse (specEnv id) (NewAmountParser []) (str ''1,455.00'') (str ''EUR'') = Inr 145500
   \<and> \<not> AllowCurrencySymbol (opt (NewAmountParser []))
   \<and> Parse (specEnv id) (NewAmountParser []) (str ''-1,455.00'') (str ''EUR'') = Inr (- 145500)
   \<and> AcceptSigns (opt (NewAmountParser [WithAllowCurrencySymbol True, WithAcceptSigns True]))
   \<and> AllowCurrencySymbol (opt (NewAmountParser [WithAllowCurrencySymbol True, WithAcceptSigns True]))
   \<and> lookupCurrency (specEnv id) (strings_TrimSpace (str ''USD'')) = Inr USD
   \<and> \<not> unicode_IsSpace (hd (Grapheme USD))
   \<and> Parse (specEnv id) (NewAmountParser [WithAllowCurrencySymbol True, WithAcceptSigns True])
        (str '' $ 539'') (str ''USD'') = Inr 53900
   \<and> Parse (specEnv id) (NewAmountParser [WithAllowCurrencySymbol True, WithAcceptSigns True])
        (str ''- $ 539'') (str ''USD'') = Inr (- 53900)"
proof -
  have lw: "\<forall>r. unicode_IsSpace r \<longrightarrow> lowerCase (specEnv id) r = r"
    by (simp add: specEnv_def)
  have g1: "\<forall>c. AllowCurrencySymbol (opt (NewAmountParser []))
           \<and> lookupCurrency (specEnv id) (strings_TrimSpace (str ''EUR'')) = Inr c
           \<longrightarrow> Grapheme c = [] \<or> \<not> unicode_IsSpace (hd (Grapheme c))"
    by (simp add: NewAmountParser_def DefaultOptions_def)
  have g2: "\<forall>c. AllowCurrencySymbol (opt (NewAmountParser [WithAllowCurrencySymbol True, WithAcceptSigns True]))
           \<and> lookupCurrency (specEnv id) (strings_TrimSpace (str ''USD'')) = Inr c
           \<longrightarrow> Grapheme c = [] \<or> \<not> unicode_IsSpace (hd (Grapheme c))"
    by (simp add: eval_defs)
  have a: "Parse (specEnv id) (NewAmountParser []) (str ''1,455.00'') (str ''EUR'') = Inr 145500"
    by (simp add: eval_defs)
  have b: "Parse (specEnv id) (NewAmountParser [WithAllowCurrencySymbol True, WithAcceptSigns True])
        (str '' $ 539'') (str ''USD'') = Inr 53900"
    by (simp add: eval_defs)
  have h1: "AcceptSigns (opt (NewAmountParser []))"
    and h2: "AcceptSigns (opt (NewAmountParser [WithAllowCurrencySymbol True, WithAcceptSigns True]))"
    by (simp_all add: eval_defs)
  have n1: "0x2D \<notin> set (str ''1,455.00'')" "0x2B \<notin> set (str ''1,455.00'')"
      "0x2212 \<notin> set (str ''1,455.00'')"
    and n2: "0x2D \<notin> set (str '' $ 539'')" "0x2B \<notin> set (str '' $ 539'')"
      "0x2212 \<notin> set (str '' $ 539'')"
    by (simp_all add: str_def)
  have m1: "0x2D # str ''1,455.00'' = str ''-1,455.00''"
    and m2: "0x2D # str '' $ 539'' = str ''- $ 539''"
    by (simp_all add: str_def)
  show ?thesis
    using C2_minus_negates [OF h1 n1 a lw g1] C2_minus_negates [OF h2 n2 b lw g2] a b h1 h2 n1
    unfolding m1 m2
    by (simp add: eval_defs)
qed

section \<open>C3: too many fractional digits\<close>

text \<open>
  C3 (as amended). For a currency with at least one fraction digit, take any input, with
  any options, signed or not, with the symbol when symbols are allowed, that reaches the
  loop with a string \<open>u d t\<close>, where \<open>d\<close> is the decimal separator of the currency, \<open>u\<close> and
  \<open>t\<close> hold only digits and grouping characters, \<open>d\<close> does not occur in \<open>u\<close> and the grouping
  of \<open>u\<close> is uniform when \<open>StrictGrouping\<close> is on: when \<open>t\<close> holds more digits than the
  currency has fraction digits, the call fails with \<open>ErrTooManyDecimals\<close>. For a currency
  with no fraction digit the decimal separator is never recognised: no input at all fails
  with \<open>ErrTooManyDecimals\<close>, and \<open>1.23\<close> for JPY is \<open>123\<close>.
\<close>

theorem C3_too_many_decimals:
  "(Fraction c > 0 \<and> reachesLoop env p input currency c sign (u @ [d] @ t)
      \<and> list_all plainRune u \<and> list_all plainRune t
      \<and> decimalRune c = d \<and> \<not> isDigit d \<and> d \<notin> set u
      \<and> (StrictGrouping (opt p) \<longrightarrow> (\<forall>g \<in> set u. isGrouping g \<longrightarrow> g = cg))
      \<and> int (length (filter isDigit t)) > Fraction c
    \<longrightarrow> Parse env p input currency = Inl (Err ErrTooManyDecimals))
   \<and> (lookupCurrency env (strings_TrimSpace currency) = Inr c \<and> Fraction c = 0
    \<longrightarrow> Parse env p input currency \<noteq> Inl (Err ErrTooManyDecimals))
   \<and> Parse (specEnv lc) (NewAmountParser []) (str ''1.23'') (str ''JPY'') = Inr 123"
proof (intro conjI impI)
  assume h: "Fraction c > 0 \<and> reachesLoop env p input currency c sign (u @ [d] @ t)
      \<and> list_all plainRune u \<and> list_all plainRune t
      \<and> decimalRune c = d \<and> \<not> isDigit d \<and> d \<notin> set u
      \<and> (StrictGrouping (opt p) \<longrightarrow> (\<forall>g \<in> set u. isGrouping g \<longrightarrow> g = cg))
      \<and> int (length (filter isDigit t)) > Fraction c"
  have r: "reachesLoop env p input currency c sign (u @ d # t)"
    and pu: "list_all plainRune u" and pt: "list_all plainRune t"
    and dd: "decimalRune c = d" and nd: "\<not> isDigit d" and du: "d \<notin> set u"
    and fp: "Fraction c > 0"
    and sg: "StrictGrouping (opt p) \<longrightarrow> (\<forall>g \<in> set u. isGrouping g \<longrightarrow> g = cg)"
    and gt: "int (length (filter isDigit t)) > Fraction c"
    using h by simp_all
  have ne: "filter isDigit t \<noteq> []" using gt fp by auto
  have "Parse env p input currency
        = assemble (Fraction c) sign (filter isDigit u) (filter isDigit t)"
    by (rule Parse_loop_decimal [OF r pu pt dd nd du fp sg])
  also have "\<dots> = Inl (Err ErrTooManyDecimals)"
    using ne gt by (simp only: assemble_TooManyDecimals) simp
  finally show "Parse env p input currency = Inl (Err ErrTooManyDecimals)" .
next
  assume "lookupCurrency env (strings_TrimSpace currency) = Inr c \<and> Fraction c = 0"
  then show "Parse env p input currency \<noteq> Inl (Err ErrTooManyDecimals)"
    using Parse_zero_fraction by blast
next
  show "Parse (specEnv lc) (NewAmountParser []) (str ''1.23'') (str ''JPY'') = Inr 123"
    by (simp add: eval_defs)
qed

theorem C3_too_many_decimals_witness:
  "(Fraction EUR > 0
    \<and> reachesLoop (specEnv id) (NewAmountParser []) (str ''-1.234'') (str ''EUR'') EUR (- 1)
        (str ''1'' @ [46] @ str ''234'')
    \<and> list_all plainRune (str ''1'') \<and> list_all plainRune (str ''234'')
    \<and> decimalRune EUR = 46 \<and> \<not> isDigit 46 \<and> 46 \<notin> set (str ''1'')
    \<and> \<not> StrictGrouping (opt (NewAmountParser []))
    \<and> AcceptSigns (opt (NewAmountParser []))
    \<and> int (length (filter isDigit (str ''234''))) > Fraction EUR
    \<and> Parse (specEnv id) (NewAmountParser []) (str ''-1.234'') (str ''EUR'')
        = Inl (Err ErrTooManyDecimals))
   \<and> (reachesLoop (specEnv id) (NewAmountParser [WithAllowCurrencySymbol True])
        ([0x20AC] @ str ''1.234'') (str ''EUR'') EUR 1 (str ''1'' @ [46] @ str ''234'')
    \<and> AllowCurrencySymbol (opt (NewAmountParser [WithAllowCurrencySymbol True]))
    \<and> \<not> StrictGrouping (opt (NewAmountParser [WithAllowCurrencySymbol True]))
    \<and> Parse (specEnv id) (NewAmountParser [WithAllowCurrencySymbol True])
        ([0x20AC] @ str ''1.234'') (str ''EUR'') = Inl (Err ErrTooManyDecimals))
   \<and> (reachesLoop (specEnv id)
        (NewAmountParser
          [WithStrictGrouping True, WithAllowCurrencySymbol True, WithAcceptSigns True])
        (str ''-$ 1,000,000.234'') (str ''USD'') USD (- 1)
        (str ''1,000,000'' @ [46] @ str ''234'')
    \<and> StrictGrouping (opt (NewAmountParser
          [WithStrictGrouping True, WithAllowCurrencySymbol True, WithAcceptSigns True]))
    \<and> filter isGrouping (str ''1,000,000'') = [44, 44]
    \<and> Parse (specEnv id)
        (NewAmountParser
          [WithStrictGrouping True, WithAllowCurrencySymbol True, WithAcceptSigns True])
        (str ''-$ 1,000,000.234'') (str ''USD'') = Inl (Err ErrTooManyDecimals))
   \<and> (lookupCurrency (specEnv id) (strings_TrimSpace (str ''JPY'')) = Inr JPY
    \<and> Fraction JPY = 0
    \<and> Parse (specEnv id) (NewAmountParser []) (str ''1.234'') (str ''JPY'')
         \<noteq> Inl (Err ErrTooManyDecimals))"
proof -
  note ev = eval_defs reachesLoop_def prepare_def plainRune_def isDigit_def isGrouping_def
  have s1: "Fraction EUR > 0
    \<and> reachesLoop (specEnv id) (NewAmountParser []) (str ''-1.234'') (str ''EUR'') EUR (- 1)
        (str ''1'' @ [46] @ str ''234'')
    \<and> list_all plainRune (str ''1'') \<and> list_all plainRune (str ''234'')
    \<and> decimalRune EUR = 46 \<and> \<not> isDigit 46 \<and> 46 \<notin> set (str ''1'')
    \<and> \<not> StrictGrouping (opt (NewAmountParser []))
    \<and> AcceptSigns (opt (NewAmountParser []))
    \<and> int (length (filter isDigit (str ''234''))) > Fraction EUR
    \<and> Parse (specEnv id) (NewAmountParser []) (str ''-1.234'') (str ''EUR'')
        = Inl (Err ErrTooManyDecimals)"
    using C3_too_many_decimals [of EUR "specEnv id" "NewAmountParser []" "str ''-1.234''"
        "str ''EUR''" "- 1" "str ''1''" 46 "str ''234''" 44 id]
    by (simp add: ev)
  have s2: "reachesLoop (specEnv id) (NewAmountParser [WithAllowCurrencySymbol True])
        ([0x20AC] @ str ''1.234'') (str ''EUR'') EUR 1 (str ''1'' @ [46] @ str ''234'')
    \<and> AllowCurrencySymbol (opt (NewAmountParser [WithAllowCurrencySymbol True]))
    \<and> \<not> StrictGrouping (opt (NewAmountParser [WithAllowCurrencySymbol True]))
    \<and> Parse (specEnv id) (NewAmountParser [WithAllowCurrencySymbol True])
        ([0x20AC] @ str ''1.234'') (str ''EUR'') = Inl (Err ErrTooManyDecimals)"
    using C3_too_many_decimals [of EUR "specEnv id"
        "NewAmountParser [WithAllowCurrencySymbol True]" "[0x20AC] @ str ''1.234''"
        "str ''EUR''" 1 "str ''1''" 46 "str ''234''" 44 id]
    by (simp add: ev)
  have s3: "reachesLoop (specEnv id)
        (NewAmountParser
          [WithStrictGrouping True, WithAllowCurrencySymbol True, WithAcceptSigns True])
        (str ''-$ 1,000,000.234'') (str ''USD'') USD (- 1)
        (str ''1,000,000'' @ [46] @ str ''234'')
    \<and> StrictGrouping (opt (NewAmountParser
          [WithStrictGrouping True, WithAllowCurrencySymbol True, WithAcceptSigns True]))
    \<and> filter isGrouping (str ''1,000,000'') = [44, 44]
    \<and> Parse (specEnv id)
        (NewAmountParser
          [WithStrictGrouping True, WithAllowCurrencySymbol True, WithAcceptSigns True])
        (str ''-$ 1,000,000.234'') (str ''USD'') = Inl (Err ErrTooManyDecimals)"
    using C3_too_many_decimals [of USD "specEnv id"
        "NewAmountParser
          [WithStrictGrouping True, WithAllowCurrencySymbol True, WithAcceptSigns True]"
        "str ''-$ 1,000,000.234''"
        "str ''USD''" "- 1" "str ''1,000,000''" 46 "str ''234''" 44 id]
    by (simp add: ev)
  have s4: "lookupCurrency (specEnv id) (strings_TrimSpace (str ''JPY'')) = Inr JPY
    \<and> Fraction JPY = 0
    \<and> Parse (specEnv id) (NewAmountParser []) (str ''1.234'') (str ''JPY'')
         \<noteq> Inl (Err ErrTooManyDecimals)"
    using C3_too_many_decimals [of JPY "specEnv id" "NewAmountParser []" "str ''1.234''"
        "str ''JPY''" 1 "[]" 46 "[]" 44 id]
    by (simp add: ev)
  show ?thesis
    by (rule conjI [OF s1 conjI [OF s2 conjI [OF s3 s4]]])
qed

text \<open>
  C3 (as stated) fails: JPY has no fraction digit, the fractional part of \<open>1.23\<close> would
  have two digits, and the call returns \<open>123\<close> instead of failing. It fails as well for
  an input that does not reach the end of the loop, whatever its fraction: with three
  digits after the period for EUR, \<open>1.234a\<close> is \<open>ErrBadChar\<close>, \<open>$1.234\<close> under the
  default options is \<open>ErrCurrencySymbolNotAllowed\<close>, \<open>-1.234\<close> when signs are not accepted
  is \<open>ErrSignsNotAllowed\<close>, and \<open>1 2,3.456\<close> under \<open>StrictGrouping\<close> is \<open>ErrMixedGrouping\<close>.
\<close>

theorem C3_counterexample:
  "Fraction JPY = 0
   \<and> Parse (specEnv id) (NewAmountParser []) (str ''1.23'') (str ''JPY'') = Inr 123
   \<and> Fraction EUR = 2
   \<and> Parse (specEnv id) (NewAmountParser []) (str ''1.234a'') (str ''EUR'')
       = Inl (Errorf ErrBadChar [[97]])
   \<and> Parse (specEnv id) (NewAmountParser []) (str ''$1.234'') (str ''EUR'')
       = Inl (Errorf ErrCurrencySymbolNotAllowed [str ''$1.234''])
   \<and> Parse (specEnv id) (NewAmountParser [WithAcceptSigns False]) (str ''-1.234'') (str ''EUR'')
       = Inl (Errorf ErrSignsNotAllowed [str ''-1.234''])
   \<and> Parse (specEnv id) (NewAmountParser [WithStrictGrouping True]) (str ''1 2,3.456'')
        (str ''EUR'')
       = Inl (Errorf ErrMixedGrouping [str ''1 2,3.456'', str '',''])"
  by (simp add: eval_defs)

section \<open>C4: strict grouping\<close>




section \<open>C5: order of the gates in \<open>Parse\<close>\<close>

text \<open>
  C5 (as amended). In \<open>Parse\<close> the sign gate stands before the currency-symbol gate:
  when signs are not accepted and the trimmed input begins with a sign, the call fails
  with \<open>ErrSignsNotAllowed\<close> for every resolvable currency, whether or not the input also
  contains a currency symbol and whether or not symbols are allowed.
\<close>

theorem C5_sign_gate_first:
  assumes "\<not> AcceptSigns (opt p)"
    and "containsSign (strings_TrimSpace input)"
    and "currency \<noteq> []"
    and "lookupCurrency env (strings_TrimSpace currency) = Inr c"
  shows "Parse env p input currency = Inl (Errorf ErrSignsNotAllowed [strings_TrimSpace input])"
proof -
  have "strings_TrimSpace input \<noteq> []"
    using assms(2) by (auto simp: containsSign_def utf8_DecodeRuneInString_def)
  with assms show ?thesis by (simp add: Parse_def)
qed

theorem C5_sign_gate_first_witness:
  "\<not> AcceptSigns (opt (NewAmountParser [WithAcceptSigns False, WithAllowCurrencySymbol False]))
   \<and> containsSign (strings_TrimSpace [0x2D, 0x20AC, 0x35])
   \<and> containsCurrencySymbol (specEnv id) (strings_TrimSpace [0x2D, 0x20AC, 0x35])
   \<and> Parse (specEnv id) (NewAmountParser [WithAcceptSigns False, WithAllowCurrencySymbol False])
        [0x2D, 0x20AC, 0x35] (str ''EUR'')
      = Inl (Errorf ErrSignsNotAllowed [[0x2D, 0x20AC, 0x35]])"
  using C5_sign_gate_first [of "NewAmountParser [WithAcceptSigns False, WithAllowCurrencySymbol False]"
      "[0x2D, 0x20AC, 0x35]" "str ''EUR''" "specEnv id" EUR]
  by (simp add: eval_defs)

text \<open>
  C5 (as stated) fails: \<open>-\<close>, the euro sign, \<open>5\<close> begins with a sign and contains a
  currency symbol; with both switches off the error is \<open>ErrSignsNotAllowed\<close>, and it is
  not \<open>ErrCurrencySymbolNotAllowed\<close>.
\<close>

theorem C5_counterexample:
  "containsSign [0x2D, 0x20AC, 0x35]
   \<and> containsCurrencySymbol (specEnv id) [0x2D, 0x20AC, 0x35]
   \<and> Parse (specEnv id)
        \<lparr>opt = \<lparr>AllowCurrencySymbol = False, StrictGrouping = False, AcceptSigns = False\<rparr>\<rparr>
        [0x2D, 0x20AC, 0x35] (str ''EUR'')
      = Inl (Errorf ErrSignsNotAllowed [[0x2D, 0x20AC, 0x35]])
   \<and> \<not> errors_Is (Errorf ErrSignsNotAllowed [[0x2D, 0x20AC, 0x35]]) ErrCurrencySymbolNotAllowed"
  by (simp add: eval_defs)

section \<open>C6: a second decimal separator\<close>



section \<open>C7: construction of the options\<close>

text \<open>
  C7. \<open>NewAmountParser\<close> starts from the zero-valued options as soon as one option is
  given, and uses \<open>DefaultOptions\<close> only when none is: a parser built with
  \<open>WithStrictGrouping(true)\<close> alone has \<open>AcceptSigns = false\<close>, and \<open>-100\<close> for JPY fails
  with \<open>ErrSignsNotAllowed\<close>, while the parser built with no option returns \<open>-100\<close>. The
  same holds for a parser built with \<open>WithAllowCurrencySymbol(true)\<close> alone, the example
  of the package documentation.
\<close>

theorem C7_options_lose_defaults:
  "opt (NewAmountParser [WithStrictGrouping True])
     = \<lparr>AllowCurrencySymbol = False, StrictGrouping = True, AcceptSigns = False\<rparr>
   \<and> Parse (specEnv lc) (NewAmountParser [WithStrictGrouping True]) (str ''-100'') (str ''JPY'')
     = Inl (Errorf ErrSignsNotAllowed [str ''-100''])
   \<and> Parse (specEnv lc) (NewAmountParser []) (str ''-100'') (str ''JPY'') = Inr (- 100)
   \<and> \<not> AcceptSigns (opt (NewAmountParser [WithAllowCurrencySymbol True]))
   \<and> AcceptSigns (opt (NewAmountParser []))"
  by (simp add: eval_defs)

section \<open>C8: resolution of the currency and the empty input\<close>

text \<open>
  C8 (as amended). \<open>Parse\<close> tests the trimmed input for emptiness first, then the query
  for emptiness, and only then resolves the query. For an input that is not blank and a
  query that is not empty and does not resolve, the call returns the very error of
  \<open>lookupCurrency\<close> on the trimmed query; a blank input gives \<open>ErrEmptyInput\<close> whatever
  the query is; an empty query with an input that is not blank gives the bare
  \<open>ErrInvalidISO\<close>.
\<close>

theorem C8_resolver_error_after_empty_check:
  "(strings_TrimSpace input \<noteq> [] \<and> currency \<noteq> []
      \<and> lookupCurrency env (strings_TrimSpace currency) = Inl e
      \<longrightarrow> Parse env p input currency = Inl e)
   \<and> (strings_TrimSpace input = [] \<longrightarrow> Parse env p input currency = Inl (Err ErrEmptyInput))
   \<and> (strings_TrimSpace input \<noteq> [] \<and> currency = []
      \<longrightarrow> Parse env p input currency = Inl (Err ErrInvalidISO))"
  by (simp add: Parse_def)

theorem C8_resolver_error_after_empty_check_witness:
  "strings_TrimSpace (str ''1'') \<noteq> [] \<and> str ''ZZZ'' \<noteq> []
   \<and> lookupCurrency (specEnv id) (strings_TrimSpace (str ''ZZZ''))
       = Inl (Errorf ErrInvalidISO [str ''ZZZ''])
   \<and> Parse (specEnv id) (NewAmountParser []) (str ''1'') (str ''ZZZ'')
       = Inl (Errorf ErrInvalidISO [str ''ZZZ''])
   \<and> strings_TrimSpace (str '' '') = []
   \<and> Parse (specEnv id) (NewAmountParser []) (str '' '') (str ''ZZZ'') = Inl (Err ErrEmptyInput)
   \<and> Parse (specEnv id) (NewAmountParser []) (str ''1'') [] = Inl (Err ErrInvalidISO)"
  using C8_resolver_error_after_empty_check [of "str ''1''" "str ''ZZZ''" "specEnv id"
      "Errorf ErrInvalidISO [str ''ZZZ'']" "NewAmountParser []"]
    C8_resolver_error_after_empty_check [of "str '' ''" "str ''ZZZ''" "specEnv id"
      "Errorf ErrInvalidISO [str ''ZZZ'']" "NewAmountParser []"]
    C8_resolver_error_after_empty_check [of "str ''1''" "[]" "specEnv id"
      "Errorf ErrInvalidISO [str ''ZZZ'']" "NewAmountParser []"]
  by (simp add: eval_defs)

text \<open>
  C8 (as stated) fails: for the empty input and the query \<open>ZZZ\<close>, which does not resolve,
  the call returns \<open>ErrEmptyInput\<close> and not the resolver's \<open>ErrInvalidISO\<close>.
\<close>

theorem C8_counterexample:
  "lookupCurrency (specEnv id) (str ''ZZZ'') = Inl (Errorf ErrInvalidISO [str ''ZZZ''])
   \<and> Parse (specEnv id) (NewAmountParser []) [] (str ''ZZZ'') = Inl (Err ErrEmptyInput)
   \<and> \<not> errors_Is (Err ErrEmptyInput) ErrInvalidISO"
  by (simp add: eval_defs)

section \<open>C9: arithmetic on 64 bits\<close>

text \<open>
  C9. \<open>Parse\<close> detects no overflow. For every non-empty string of digits and every
  currency with 0 to 9 fraction digits, the call returns without error, and the value
  returned is the exact amount \<open>decimalValue ds * 10 ^ n\<close> taken into the 64-bit word,
  that is, reduced modulo \<open>2 ^ 64\<close>: \<open>atoiRunes\<close> and the final sum wrap around. For twenty
  digits \<open>9\<close> and JPY the result is \<open>7766279631452241919\<close>, not the exact amount.
\<close>

theorem C9_no_overflow_detection:
  assumes "ds \<noteq> []" and "list_all isDigit ds"
    and "0 \<le> Fraction c" and "Fraction c \<le> 9"
    and "currency \<noteq> []" and "lookupCurrency env (strings_TrimSpace currency) = Inr c"
    and "\<not> AllowCurrencySymbol (opt p)"
  shows "Parse env p ds currency
           = Inr (word_of_nat (decimalValue ds * 10 ^ nat (Fraction c)))
         \<and> unat (word_of_nat (decimalValue ds * 10 ^ nat (Fraction c)) :: int64)
           = (decimalValue ds * 10 ^ nat (Fraction c)) mod 2 ^ 64"
proof -
  have pl: "list_all plainRune ds"
    using assms(2) by (auto simp: list_all_iff plainRune_def)
  have "isDigit (hd ds)" "isDigit (last ds)"
    using assms(1,2) by (auto simp: list_all_iff)
  then have "\<not> unicode_IsSpace (hd ds)" "\<not> unicode_IsSpace (last ds)"
    by (auto simp: isDigit_def unicode_IsSpace_def)
  then have tr: "strings_TrimSpace ds = ds"
    using assms(1) by (intro TrimSpace_id)
  have sc: "scan (opt p) ds (decimalRune c) (Fraction c) ds [] [] False 48 = Inr (ds, [])"
    using scan_digits [OF assms(2), of "opt p" ds "decimalRune c" "Fraction c" "[]" "[]" "[]" 48]
    by simp
  have as: "assemble (Fraction c) 1 ds [] = Inr (word_of_nat (decimalValue ds * 10 ^ nat (Fraction c)))"
    using assemble_digits [of ds "[]" "Fraction c" 1] assms(1-4)
    by (simp add: decimalValue_def)
  have "Parse env p ds currency = Inr (word_of_nat (decimalValue ds * 10 ^ nat (Fraction c)))"
    using Parse_plain [OF tr assms(1) pl assms(5,6,7)] by (simp add: sc as)
  moreover have "unat (word_of_nat (decimalValue ds * 10 ^ nat (Fraction c)) :: int64)
           = (decimalValue ds * 10 ^ nat (Fraction c)) mod 2 ^ 64"
    by (simp only: unat_of_nat) simp
  ultimately show ?thesis by (rule conjI)
qed

theorem C9_no_overflow_detection_witness:
  "str ''99999999999999999999'' \<noteq> [] \<and> list_all isDigit (str ''99999999999999999999'')
   \<and> 0 \<le> Fraction JPY \<and> Fraction JPY \<le> 9 \<and> str ''JPY'' \<noteq> []
   \<and> lookupCurrency (specEnv id) (strings_TrimSpace (str ''JPY'')) = Inr JPY
   \<and> \<not> AllowCurrencySymbol (opt (NewAmountParser []))
   \<and> decimalValue (str ''99999999999999999999'') = 99999999999999999999
   \<and> Parse (specEnv id) (NewAmountParser []) (str ''99999999999999999999'') (str ''JPY'')
       = Inr 7766279631452241919
   \<and> sint (7766279631452241919 :: int64) = 99999999999999999999 - 5 * 2 ^ 64
   \<and> sint (7766279631452241919 :: int64) \<noteq> 99999999999999999999"
  using C9_no_overflow_detection [of "str ''99999999999999999999''" JPY "str ''JPY''"
      "specEnv id" "NewAmountParser []"]
  by (simp add: eval_defs isDigit_def decimalValue_def)

section \<open>C10: single letters in the token list\<close>

text \<open>
  C10. With \<open>AllowCurrencySymbol = false\<close> every input that contains one of the letters
  \<open>d g k l p q r t\<close>, in either case, is rejected with \<open>ErrCurrencySymbolNotAllowed\<close> once
  the currency has resolved and the sign gate has let the input pass: the token list holds
  these letters as tokens of their own and is matched by containment in the lower-cased
  input. \<open>1k\<close> has no rune of category Sc and contains no token but \<open>k\<close>.
\<close>

theorem C10_single_letter_tokens:
  assumes "\<not> AllowCurrencySymbol (opt p)"
    and "r \<in> set input" and "r \<in> set (str ''dgklpqrtDGKLPQRT'')"
    and "AcceptSigns (opt p) \<or> \<not> containsSign (strings_TrimSpace input)"
    and "currency \<noteq> []" and "lookupCurrency env (strings_TrimSpace currency) = Inr c"
  shows "Parse env p input currency
           = Inl (Errorf ErrCurrencySymbolNotAllowed [strings_TrimSpace input])"
proof -
  let ?s = "strings_TrimSpace input"
  have "\<not> unicode_IsSpace r"
    using assms(3) by (auto simp: str_def unicode_IsSpace_def)
  with assms(2) have mem: "r \<in> set ?s" by (rule TrimSpace_mem)
  then have ne: "?s \<noteq> []" by auto
  have "unicode_ToLower (lowerCase env) r \<in> set (strings_ToLower (lowerCase env) ?s)"
    using mem by (simp add: strings_ToLower_def)
  then have "strings_Contains (strings_ToLower (lowerCase env) ?s) [unicode_ToLower (lowerCase env) r]"
    by (simp add: Contains_single)
  with single_letter_token [OF assms(3)] have "containsCurrencySymbol env ?s"
    by (auto simp: containsCurrencySymbol_def list_ex_iff)
  with assms ne show ?thesis by (auto simp: Parse_def)
qed

theorem C10_single_letter_tokens_witness:
  "\<not> AllowCurrencySymbol (opt (NewAmountParser []))
   \<and> 107 \<in> set (str ''1k'') \<and> 107 \<in> set (str ''dgklpqrtDGKLPQRT'')
   \<and> AcceptSigns (opt (NewAmountParser []))
   \<and> str ''EUR'' \<noteq> [] \<and> lookupCurrency (specEnv id) (strings_TrimSpace (str ''EUR'')) = Inr EUR
   \<and> \<not> list_ex unicode_Sc (str ''1k'')
   \<and> filter (\<lambda>t. strings_Contains (strings_ToLower id (str ''1k'')) t) tokens = [str ''k'']
   \<and> Parse (specEnv id) (NewAmountParser []) (str ''1k'') (str ''EUR'')
       = Inl (Errorf ErrCurrencySymbolNotAllowed [str ''1k''])"
  using C10_single_letter_tokens [of "NewAmountParser []" 107 "str ''1k''" "str ''EUR''"
      "specEnv id" EUR]
  by (simp add: eval_defs)

end
